theory Spec2Isabelle
  imports
    Complex_Main
    "HOL-Library.Word"
    "HOL-Library.Log_Nat"
    "HOL-Library.Monad_Syntax"
begin

unbundle bit_operations_syntax

section \<open>Machine types of AudioDriver.cpp\<close>

text \<open>
  The target is a 32-bit microcontroller: \<^verbatim>\<open>int\<close>, \<^verbatim>\<open>int32_t\<close> and \<^verbatim>\<open>esp_err_t\<close> are
  32-bit two's complement integers, \<^verbatim>\<open>uint\<close> and \<^verbatim>\<open>size_t\<close> are 32-bit unsigned
  integers. All of them are 32-bit words here; \<open>sint\<close> reads a word as a signed value,
  \<open>unat\<close> as an unsigned one, and arithmetic wraps around.
\<close>

type_synonym int32_t = "32 word"
type_synonym uint32_t = "32 word"
type_synonym size_t = "32 word"
type_synonym esp_err_t = "32 word"
type_synonym byte = "8 word"

section \<open>Single-precision floating point\<close>

text \<open>
  A finite \<^verbatim>\<open>float\<close> is a dyadic number \<open>mantissa * 2 ^ exponent\<close> with a mantissa of at
  most 24 bits, an exponent of at least \<open>-149\<close> (the weight of the last bit of a
  subnormal number) and a magnitude below \<open>2 ^ 128\<close>. Signed zeros are not told
  apart and infinities and NaN are not values of the type: an operation whose result is
  not finite returns \<open>None\<close>.
\<close>

datatype float32 = Float32 (mantissa: int) (exponent: int)

definition valof :: "float32 \<Rightarrow> real" where
  "valof x = real_of_int (mantissa x) * 2 powi exponent x"

definition is_float32 :: "float32 \<Rightarrow> bool" where
  "is_float32 x \<longleftrightarrow>
     \<bar>mantissa x\<bar> < 2 ^ 24 \<and> - 149 \<le> exponent x \<and>
     \<bar>mantissa x\<bar> * 2 ^ nat (exponent x + 149) < 2 ^ 277"

text \<open>
  \<open>round_even k m\<close> is \<open>m / 2 ^ k\<close> rounded to the nearest integer, a tie going to the
  even neighbour: the default rounding of the floating-point unit.
\<close>

definition round_even :: "nat \<Rightarrow> int \<Rightarrow> int" where
  "round_even k m =
     (let q = m div 2 ^ k; r = m mod 2 ^ k
      in if 2 * r < 2 ^ k then q
         else if 2 ^ k < 2 * r then q + 1
         else if even q then q else q + 1)"

text \<open>
  \<open>round32 m e\<close> rounds the exact value \<open>m * 2 ^ e\<close> to single precision: the bits
  beyond the 24th, and those below the weight \<open>2 ^ -149\<close>, are rounded away; a result of
  magnitude \<open>2 ^ 128\<close> or more overflows to an infinity, which is \<open>None\<close>.
\<close>

definition round32 :: "int \<Rightarrow> int \<Rightarrow> float32 option" where
  "round32 m e =
     (let k = nat (max (bitlen \<bar>m\<bar> - 24) (- 149 - e));
          q = round_even k m;
          e' = e + int k;
          r = (if \<bar>q\<bar> = 2 ^ 24 then Float32 (q div 2) (e' + 1) else Float32 q e')
      in if \<bar>q\<bar> * 2 ^ nat (e' + 149) < 2 ^ 277 then Some r else None)"

definition fmul :: "float32 \<Rightarrow> float32 \<Rightarrow> float32 option" where
  "fmul a b = round32 (mantissa a * mantissa b) (exponent a + exponent b)"

definition fadd :: "float32 \<Rightarrow> float32 \<Rightarrow> float32 option" where
  "fadd a b =
     (let e = min (exponent a) (exponent b)
      in round32 (mantissa a * 2 ^ nat (exponent a - e) + mantissa b * 2 ^ nat (exponent b - e)) e)"

definition fneg :: "float32 \<Rightarrow> float32" where
  "fneg a = Float32 (- mantissa a) (exponent a)"

text \<open>Conversion of a 32-bit integer to \<^verbatim>\<open>float\<close>: rounded when it has more than 24 bits.\<close>

definition int_to_float :: "int32_t \<Rightarrow> float32 option" where
  "int_to_float n = round32 (sint n) 0"

text \<open>
  Conversion of a \<^verbatim>\<open>float\<close> to \<^verbatim>\<open>int32_t\<close> truncates toward zero. C++ leaves the conversion
  undefined when the truncated value is not an \<^verbatim>\<open>int32_t\<close>; that is \<open>None\<close>.
\<close>

definition truncate32 :: "float32 \<Rightarrow> int" where
  "truncate32 x =
     (if 0 \<le> exponent x then mantissa x * 2 ^ nat (exponent x)
      else sgn (mantissa x) * (\<bar>mantissa x\<bar> div 2 ^ nat (- exponent x)))"

definition float_to_int :: "float32 \<Rightarrow> int32_t option" where
  "float_to_int x =
     (let t = truncate32 x
      in if - (2 ^ 31) \<le> t \<and> t < 2 ^ 31 then Some (word_of_int t) else None)"

section \<open>The sample codec\<close>

text \<open>
  \<^verbatim>\<open>const float AudioDriver::ScaleFloat2Int = 8388608.f; // 2^23\<close>
  \<^verbatim>\<open>const float AudioDriver::ScaleInt2Float = 0.0000000004656612873077392578125f; // 1 / 2^31\<close>
\<close>

definition ScaleFloat2Int :: float32 where
  "ScaleFloat2Int = Float32 1 23"

definition ScaleInt2Float :: float32 where
  "ScaleInt2Float = Float32 1 (- 31)"

text \<open>
  \<^verbatim>\<open>float int2Float(int32_t sample) { return (float)(sample * AudioDriver::ScaleInt2Float); }\<close>
  The integer is converted to \<^verbatim>\<open>float\<close> first, the product is a \<^verbatim>\<open>float\<close> product.
\<close>

definition int2Float :: "int32_t \<Rightarrow> float32 option" where
  "int2Float sample = do {
     s \<leftarrow> int_to_float sample;
     fmul s ScaleInt2Float
   }"

text \<open>
  The macro of the Arduino core,
  \<^verbatim>\<open>#define constrain(amt,low,high) ((amt)<(low)?(low):((amt)>(high)?(high):(amt)))\<close>,
  at the type \<^verbatim>\<open>float\<close>, which is where \<^verbatim>\<open>float2Int\<close> uses it: its bounds are \<^verbatim>\<open>float\<close>s, so
  the integer argument is converted to \<^verbatim>\<open>float\<close> and so is the result.
\<close>

definition constrain_float :: "float32 \<Rightarrow> float32 \<Rightarrow> float32 \<Rightarrow> float32" where
  "constrain_float amt low high =
     (if valof amt < valof low then low else if valof high < valof amt then high else amt)"

text \<open>
  \<^verbatim>\<open>
  int32_t float2Int(float sample) {
      sample *= AudioDriver::ScaleFloat2Int;
      int32_t y = (int32_t)(sample >= 0.5)? sample+1 : sample;
      y = constrain(y, -AudioDriver::ScaleFloat2Int, AudioDriver::ScaleFloat2Int-1);
      return y << 8;
  }
  \<close>
  The cast in the second line binds to the comparison, so the conditional expression is a
  \<^verbatim>\<open>float\<close> that the initialisation of \<open>y\<close> converts to \<^verbatim>\<open>int32_t\<close>. The literal \<open>0.5\<close> is a
  \<^verbatim>\<open>double\<close>, and the comparison is exact. The shift of a negative \<open>y\<close> is the shift of its
  two's complement representation, as the compiler of the target defines it.
\<close>

definition float2Int :: "float32 \<Rightarrow> int32_t option" where
  "float2Int sample = do {
     scaled \<leftarrow> fmul sample ScaleFloat2Int;
     t \<leftarrow> (if 1 / 2 \<le> valof scaled then fadd scaled (Float32 1 0) else Some scaled);
     y \<leftarrow> float_to_int t;
     yf \<leftarrow> int_to_float y;
     high \<leftarrow> fadd ScaleFloat2Int (Float32 (- 1) 0);
     y' \<leftarrow> float_to_int (constrain_float yf (fneg ScaleFloat2Int) high);
     Some (push_bit 8 y')
   }"


definition clamp24 :: "int \<Rightarrow> int" where
  "clamp24 n = max (- (2 ^ 23)) (min (2 ^ 23 - 1) n)"


section \<open>The driver object and its collaborators\<close>

text \<open>
  \<^verbatim>\<open>AudioDriver.h\<close> and the headers of the transport driver are not part of the sources, so
  the constants they declare are parameters: the frame count of a block and the two
  enumerators of \<^verbatim>\<open>i2s_port_t\<close> that \<^verbatim>\<open>setup\<close> names. A port is the numeric value of its
  enumerator.
\<close>

type_synonym i2s_port_t = int
type_synonym pointer = nat

record platform =
  BufferSize :: int32_t
  I2S_NUM_0 :: i2s_port_t
  I2S_NUM_MAX :: i2s_port_t

definition sizeof_int32_t :: size_t where
  "sizeof_int32_t = 4"

datatype pin_mode = OUTPUT
datatype pin_level = LOW | HIGH
datatype i2s_mode_t = I2S_MODE_MASTER | I2S_MODE_RX | I2S_MODE_TX
datatype i2s_bits_per_sample_t = I2S_BITS_PER_SAMPLE_24BIT
datatype i2s_channel_fmt_t = I2S_CHANNEL_FMT_RIGHT_LEFT
datatype i2s_comm_format_t = I2S_COMM_FORMAT_I2S | I2S_COMM_FORMAT_I2S_MSB
datatype intr_flag = ESP_INTR_FLAG_LEVEL1

text \<open>The two structures that \<^verbatim>\<open>setup\<close> fills in; a set of or-ed flags is a list.\<close>

record i2s_config_t =
  mode :: "i2s_mode_t list"
  sample_rate :: int32_t
  bits_per_sample :: i2s_bits_per_sample_t
  channel_format :: i2s_channel_fmt_t
  communication_format :: "i2s_comm_format_t list"
  intr_alloc_flags :: intr_flag
  dma_buf_count :: int32_t
  dma_buf_len :: int32_t
  use_apll :: bool
  tx_desc_auto_clear :: bool
  fixed_mclk :: int32_t

record i2s_pin_config_t =
  bck_io_num :: int32_t
  ws_io_num :: int32_t
  data_out_num :: int32_t
  data_in_num :: int32_t

text \<open>
  Every call that leaves the class is recorded with its arguments, in order. The install
  call always passes a queue size of 0 and no queue; the two register macros always have
  the arguments written in \<^verbatim>\<open>setup\<close>. \<^verbatim>\<open>Call_calloc\<close> carries the pointer returned.
\<close>

datatype call =
    Call_pinMode int32_t pin_mode
  | Call_digitalWrite int32_t pin_level
  | Call_i2s_driver_install i2s_port_t i2s_config_t
  | Call_i2s_set_pin i2s_port_t i2s_pin_config_t
  | Call_i2s_set_sample_rates i2s_port_t uint32_t
  | Call_i2s_zero_dma_buffer i2s_port_t
  | Call_PIN_FUNC_SELECT
  | Call_SET_PERI_REG_BITS
  | Call_delay nat
  | Call_calloc size_t size_t pointer
  | Call_i2s_read i2s_port_t pointer size_t nat
  | Call_i2s_write i2s_port_t pointer size_t nat
  | Call_Serial_print string
  | Call_Serial_println uint32_t

text \<open>
  The state outside the object: the calls made so far, the heap and the two
  function-local statics of \<^verbatim>\<open>setup\<close>, which are \<open>None\<close> until control first passes their
  declaration. The heap is the list of the blocks allocated so far, as bytes; pointer
  \<open>p > 0\<close> is the address of block \<open>p - 1\<close> and pointer 0 is \<^verbatim>\<open>NULL\<close>. Nothing in the
  sources frees a block.
\<close>

record machine =
  calls :: "call list"
  heap :: "byte list list"
  i2s_config :: "i2s_config_t option"
  pin_config :: "i2s_pin_config_t option"

record AudioDriver =
  fs :: int32_t
  channelCount :: int32_t
  enablePin :: int32_t
  i2sPort :: i2s_port_t
  i2sBufferSize :: int32_t
  i2sReadBuffer :: pointer
  i2sWriteBuffer :: pointer

definition invoke :: "call \<Rightarrow> machine \<Rightarrow> machine" where
  "invoke c m = m\<lparr>calls := calls m @ [c]\<rparr>"

definition block_at :: "machine \<Rightarrow> pointer \<Rightarrow> byte list option" where
  "block_at m p = (if 0 < p \<and> p \<le> length (heap m) then Some (heap m ! (p - 1)) else None)"

text \<open>
  \<^verbatim>\<open>calloc\<close> fails when the environment has no memory left (\<open>available\<close> is what it
  answers) and when the size of the request is not a \<^verbatim>\<open>size_t\<close>; otherwise the block is
  new and zeroed.
\<close>

definition calloc :: "bool \<Rightarrow> size_t \<Rightarrow> size_t \<Rightarrow> machine \<Rightarrow> pointer \<times> machine" where
  "calloc available nmemb size' m =
     (if available \<and> unat nmemb * unat size' < 2 ^ 32
      then let p = Suc (length (heap m))
           in (p, invoke (Call_calloc nmemb size' p)
                    (m\<lparr>heap := heap m @ [replicate (unat nmemb * unat size') 0]\<rparr>))
      else (0, invoke (Call_calloc nmemb size' 0) m))"

text \<open>
  A write of \<open>data\<close> through pointer \<open>p\<close> by the transport driver. Writing outside an
  allocated block is undefined, which is \<open>None\<close>.
\<close>

definition store :: "machine \<Rightarrow> pointer \<Rightarrow> byte list \<Rightarrow> machine option" where
  "store m p data =
     (if data = [] then Some m
      else case block_at m p of
             None \<Rightarrow> None
           | Some b \<Rightarrow>
               if length data \<le> length b
               then Some (m\<lparr>heap := (heap m)[p - 1 := data @ drop (length data) b]\<rparr>)
               else None)"

definition readable :: "machine \<Rightarrow> pointer \<Rightarrow> nat \<Rightarrow> bool" where
  "readable m p n \<longleftrightarrow>
     n = 0 \<or> (case block_at m p of None \<Rightarrow> False | Some b \<Rightarrow> n \<le> length b)"

text \<open>
  The macro of the Arduino core again, here at the type of the port enumerators:
  \<^verbatim>\<open>this->i2sPort = constrain(i2s_port, I2S_NUM_0, I2S_NUM_MAX);\<close>
\<close>

definition constrain :: "'a::linorder \<Rightarrow> 'a \<Rightarrow> 'a \<Rightarrow> 'a" where
  "constrain amt low high = (if amt < low then low else if high < amt then high else amt)"

text \<open>
  What the collaborators answer during one call of \<^verbatim>\<open>setup\<close>: the status of each of the
  four calls to the transport driver and whether each \<^verbatim>\<open>calloc\<close> finds memory. The
  theorems hold for every answer.
\<close>

record setup_responses =
  i2s_driver_install_ret :: esp_err_t
  i2s_set_pin_ret :: esp_err_t
  i2s_set_sample_rates_ret :: esp_err_t
  i2s_zero_dma_buffer_ret :: esp_err_t
  read_buffer_available :: bool
  write_buffer_available :: bool

text \<open>
  \<^verbatim>\<open>int AudioDriver::setup(int fs, int channelCount, int bitClkPin, int lrClkPin,
    int dataOutPin, int dataInPin, int enablePin, i2s_port_t i2s_port)\<close>
  The parameters that share a name with a member carry a prime. The statement order is
  that of the source; the two \<^verbatim>\<open>static const\<close> structures are initialised from the
  arguments only when they are still \<open>None\<close>.
\<close>

definition AudioDriver_setup ::
  "platform \<Rightarrow> setup_responses \<Rightarrow> int32_t \<Rightarrow> int32_t \<Rightarrow> int32_t \<Rightarrow> int32_t \<Rightarrow> int32_t
     \<Rightarrow> int32_t \<Rightarrow> int32_t \<Rightarrow> i2s_port_t \<Rightarrow> AudioDriver \<times> machine
     \<Rightarrow> esp_err_t \<times> AudioDriver \<times> machine" where
  "AudioDriver_setup pf r fs' channelCount' bitClkPin lrClkPin dataOutPin dataInPin enablePin'
       i2s_port =
     (\<lambda>(this, m).
        let this = this\<lparr>fs := fs'\<rparr>;
            this = this\<lparr>channelCount := channelCount'\<rparr>;
            this = this\<lparr>i2sPort := constrain i2s_port (I2S_NUM_0 pf) (I2S_NUM_MAX pf)\<rparr>;
            this = this\<lparr>enablePin := enablePin'\<rparr>;
            m = invoke (Call_pinMode enablePin' OUTPUT) m;
            m = invoke (Call_digitalWrite enablePin' LOW) m;
            mclk_rate = fs' * 384;
            config = (case i2s_config m of
                Some c \<Rightarrow> c
              | None \<Rightarrow>
                  \<lparr>mode = [I2S_MODE_MASTER, I2S_MODE_RX, I2S_MODE_TX],
                   sample_rate = fs',
                   bits_per_sample = I2S_BITS_PER_SAMPLE_24BIT,
                   channel_format = I2S_CHANNEL_FMT_RIGHT_LEFT,
                   communication_format = [I2S_COMM_FORMAT_I2S, I2S_COMM_FORMAT_I2S_MSB],
                   intr_alloc_flags = ESP_INTR_FLAG_LEVEL1,
                   dma_buf_count = 2,
                   dma_buf_len = BufferSize pf,
                   use_apll = True,
                   tx_desc_auto_clear = True,
                   fixed_mclk = mclk_rate\<rparr>);
            m = m\<lparr>i2s_config := Some config\<rparr>;
            pins = (case pin_config m of
                Some c \<Rightarrow> c
              | None \<Rightarrow>
                  \<lparr>bck_io_num = bitClkPin,
                   ws_io_num = lrClkPin,
                   data_out_num = dataOutPin,
                   data_in_num = dataInPin\<rparr>);
            m = m\<lparr>pin_config := Some pins\<rparr>;
            m = invoke (Call_i2s_driver_install (i2sPort this) config) m;
            err = i2s_driver_install_ret r;
            m = invoke (Call_i2s_set_pin (i2sPort this) pins) m;
            err = err + i2s_set_pin_ret r;
            m = invoke (Call_i2s_set_sample_rates (i2sPort this) fs') m;
            err = err + i2s_set_sample_rates_ret r;
            m = invoke (Call_i2s_zero_dma_buffer (i2sPort this)) m;
            err = err + i2s_zero_dma_buffer_ret r;
            m = invoke Call_PIN_FUNC_SELECT m;
            m = invoke Call_SET_PERI_REG_BITS m;
            m = invoke (Call_delay 500) m;
            this = this\<lparr>i2sBufferSize := channelCount' * BufferSize pf\<rparr>;
            (p, m) = calloc (read_buffer_available r) (i2sBufferSize this) sizeof_int32_t m;
            this = this\<lparr>i2sReadBuffer := p\<rparr>;
            (p, m) = calloc (write_buffer_available r) (i2sBufferSize this) sizeof_int32_t m;
            this = this\<lparr>i2sWriteBuffer := p\<rparr>
        in (err, this, m))"

text \<open>
  \<^verbatim>\<open>bool AudioDriver::enable(bool powerOn) { digitalWrite(enablePin, powerOn); return true; }\<close>
\<close>

definition enable :: "bool \<Rightarrow> AudioDriver \<times> machine \<Rightarrow> bool \<times> AudioDriver \<times> machine" where
  "enable powerOn =
     (\<lambda>(this, m).
        (True, this, invoke (Call_digitalWrite (enablePin this) (if powerOn then HIGH else LOW)) m))"

text \<open>
  What the transport driver answers to one \<^verbatim>\<open>i2s_read\<close>: its status and the bytes it has.
  It writes at most the number of bytes asked for, and reports how many it wrote.
  \<^verbatim>\<open>
  int AudioDriver::readBlock() {
      uint bytesRead = 0;
      int err = i2s_read(i2sPort, (void*) i2sReadBuffer, i2sBufferSize * sizeof(int32_t), &bytesRead, 500);
      if (err || bytesRead < (i2sBufferSize * sizeof(int32_t))) {
          Serial.print("I2S read error: ");
          Serial.println(bytesRead);
      }
      return err;
  }
  \<close>
\<close>

record i2s_read_response =
  i2s_read_ret :: esp_err_t
  i2s_read_data :: "byte list"

definition readBlock ::
  "i2s_read_response \<Rightarrow> AudioDriver \<times> machine \<Rightarrow> (esp_err_t \<times> AudioDriver \<times> machine) option" where
  "readBlock r =
     (\<lambda>(this, m).
        let size' = i2sBufferSize this * sizeof_int32_t;
            m = invoke (Call_i2s_read (i2sPort this) (i2sReadBuffer this) size' 500) m;
            data = take (unat size') (i2s_read_data r);
            bytesRead = (word_of_nat (length data) :: uint32_t);
            err = i2s_read_ret r
        in case store m (i2sReadBuffer this) data of
             None \<Rightarrow> None
           | Some m \<Rightarrow>
               let m = (if err \<noteq> 0 \<or> bytesRead < i2sBufferSize this * sizeof_int32_t
                        then invoke (Call_Serial_println bytesRead)
                               (invoke (Call_Serial_print ''I2S read error: '') m)
                        else m)
               in Some (err, this, m))"

text \<open>
  \<^verbatim>\<open>
  int AudioDriver::writeBlock() {
      uint bytesWritten = 0;
      int err = i2s_write(i2sPort, (const char *) i2sWriteBuffer,
                          channelCount * AudioDriver::BufferSize * sizeof(int32_t), &bytesWritten, 500);
      if (bytesWritten < 1) {
          Serial.print("I2S write error: ");
          Serial.println(bytesWritten);
      }
      return err;
  }
  \<close>
  The driver reads the bytes it is asked to send; reading outside an allocated block is
  undefined.
\<close>

record i2s_write_response =
  i2s_write_ret :: esp_err_t
  i2s_write_bytes :: uint32_t

definition writeBlock ::
  "platform \<Rightarrow> i2s_write_response \<Rightarrow> AudioDriver \<times> machine
     \<Rightarrow> (esp_err_t \<times> AudioDriver \<times> machine) option" where
  "writeBlock pf r =
     (\<lambda>(this, m).
        let size' = channelCount this * BufferSize pf * sizeof_int32_t;
            bytesWritten = i2s_write_bytes r;
            err = i2s_write_ret r
        in if readable m (i2sWriteBuffer this) (unat size')
           then let m = invoke (Call_i2s_write (i2sPort this) (i2sWriteBuffer this) size' 500) m;
                    m = (if bytesWritten < 1
                         then invoke (Call_Serial_println bytesWritten)
                                (invoke (Call_Serial_print ''I2S write error: '') m)
                         else m)
                in Some (err, this, m)
           else None)"

text \<open>
  The Configured state: what \<^verbatim>\<open>setup\<close> establishes when both allocations succeed, and
  what \<^verbatim>\<open>readBlock\<close> and \<^verbatim>\<open>writeBlock\<close> keep. The buffers are two different blocks of
  \<open>i2sBufferSize\<close> samples of four bytes.
\<close>

definition is_buffer :: "machine \<Rightarrow> pointer \<Rightarrow> nat \<Rightarrow> bool" where
  "is_buffer m p n \<longleftrightarrow> (case block_at m p of None \<Rightarrow> False | Some b \<Rightarrow> length b = 4 * n)"

definition configured :: "platform \<Rightarrow> AudioDriver \<Rightarrow> machine \<Rightarrow> bool" where
  "configured pf this m \<longleftrightarrow>
     i2sBufferSize this = channelCount this * BufferSize pf
     \<and> 4 * unat (i2sBufferSize this) < 2 ^ 32
     \<and> i2sReadBuffer this \<noteq> i2sWriteBuffer this
     \<and> is_buffer m (i2sReadBuffer this) (unat (i2sBufferSize this))
     \<and> is_buffer m (i2sWriteBuffer this) (unat (i2sBufferSize this))"

text \<open>
  For stating what an operation does to its collaborators: the calls made between two
  states of the machine, and the port argument of a call to the transport driver.
\<close>

definition new_calls :: "machine \<Rightarrow> machine \<Rightarrow> call list" where
  "new_calls m m' = drop (length (calls m)) (calls m')"


text \<open>
  The end-to-end scenario of the specification: a block of 64 frames, the enumerators
  \<^verbatim>\<open>I2S_NUM_0\<close> and \<^verbatim>\<open>I2S_NUM_MAX\<close> with the values 0 and 2, a machine on which nothing has run
  yet, an object whose members are not yet set, and collaborators that succeed.
\<close>

definition scenario_platform :: platform where
  "scenario_platform = \<lparr>BufferSize = 64, I2S_NUM_0 = 0, I2S_NUM_MAX = 2\<rparr>"

definition power_on :: machine where
  "power_on = \<lparr>calls = [], heap = [], i2s_config = None, pin_config = None\<rparr>"

definition unset :: AudioDriver where
  "unset = \<lparr>fs = 0, channelCount = 0, enablePin = 0, i2sPort = 0, i2sBufferSize = 0,
     i2sReadBuffer = 0, i2sWriteBuffer = 0\<rparr>"

definition all_succeed :: setup_responses where
  "all_succeed = \<lparr>i2s_driver_install_ret = 0, i2s_set_pin_ret = 0,
     i2s_set_sample_rates_ret = 0, i2s_zero_dma_buffer_ret = 0,
     read_buffer_available = True, write_buffer_available = True\<rparr>"

text \<open>The scenario after its call of \<^verbatim>\<open>setup\<close>, with the pin numbers 26, 27, 14, 13 and 33.\<close>

definition scenario_setup :: "esp_err_t \<times> AudioDriver \<times> machine" where
  "scenario_setup =
     AudioDriver_setup scenario_platform all_succeed 48000 2 26 27 14 13 33 0 (unset, power_on)"

definition scenario_driver :: AudioDriver where
  "scenario_driver = fst (snd scenario_setup)"

definition scenario_machine :: machine where
  "scenario_machine = snd (snd scenario_setup)"

text \<open>
  The same scenario on a machine that has no memory left: both calls of \<^verbatim>\<open>calloc\<close> fail,
  every call to the transport driver succeeds.
\<close>

definition out_of_memory :: setup_responses where
  "out_of_memory = all_succeed\<lparr>read_buffer_available := False, write_buffer_available := False\<rparr>"

definition scenario_setup_out_of_memory :: "esp_err_t \<times> AudioDriver \<times> machine" where
  "scenario_setup_out_of_memory =
     AudioDriver_setup scenario_platform out_of_memory 48000 2 26 27 14 13 33 0 (unset, power_on)"

section \<open>Rounding to single precision\<close>

text \<open>The two scale factors are the numbers that the source writes as literals.\<close>

lemma ScaleFloat2Int_value: "is_float32 ScaleFloat2Int \<and> valof ScaleFloat2Int = 8388608"
  by (simp add: ScaleFloat2Int_def is_float32_def valof_def)

lemma ScaleInt2Float_value:
  "is_float32 ScaleInt2Float
   \<and> valof ScaleInt2Float = 4656612873077392578125 / 10 ^ 31
   \<and> valof ScaleInt2Float = 1 / 2 ^ 31"
  by (simp add: ScaleInt2Float_def is_float32_def valof_def)

lemma round_even_exact: "2 ^ k dvd m \<Longrightarrow> round_even k m = m div 2 ^ k"
  by (auto simp: round_even_def Let_def mod_eq_0_iff_dvd)

lemma round_even_0 [simp]: "round_even 0 m = m"
  by (simp add: round_even_def)

lemma round_even_error: "2 * \<bar>round_even k m * 2 ^ k - m\<bar> \<le> 2 ^ k"
proof -
  define P :: int where "P = 2 ^ k"
  define q where "q = m div P"
  define r where "r = m mod P"
  have P: "0 < P" by (simp add: P_def)
  have m: "m = q * P + r" by (simp add: q_def r_def)
  have r: "0 \<le> r" "r < P" using P by (simp_all add: r_def)
  show ?thesis
    unfolding round_even_def Let_def P_def [symmetric] q_def [symmetric] r_def [symmetric]
    using r by (auto simp: m algebra_simps)
qed

lemma bitlen_abs_le: "\<bar>m\<bar> < 2 ^ n \<Longrightarrow> bitlen \<bar>m\<bar> \<le> int n"
  by (simp add: bitlen_le_iff_power)

lemma abs_less_bitlen: "\<bar>m\<bar> < 2 ^ nat (bitlen \<bar>m\<bar>)"
  using bitlen_bounds [of "\<bar>m\<bar>"] by (cases "m = 0") auto

lemma bitlen_abs_ge: "m \<noteq> 0 \<Longrightarrow> 2 ^ nat (bitlen \<bar>m\<bar> - 1) \<le> \<bar>m\<bar>"
  using bitlen_bounds [of "\<bar>m\<bar>"] by auto


lemma valof_Float32 [simp]: "valof (Float32 m e) = real_of_int m * 2 powi e"
  by (simp add: valof_def)

lemma abs_bound_aux:
  "2 * z \<le> P \<Longrightarrow> y < 16777216 * P \<Longrightarrow> x \<le> y + z \<Longrightarrow> 2 * x < 33554433 * P" for P :: int
  by linarith

lemma round_even_bound:
  assumes "\<bar>m\<bar> < 2 ^ (k + 24)"
  shows "\<bar>round_even k m\<bar> \<le> 2 ^ 24"
proof -
  define q where "q = round_even k m"
  define P :: int where "P = 2 ^ k"
  define a where "a = q * P"
  have P: "0 < P" by (simp add: P_def)
  have "2 * \<bar>a - m\<bar> \<le> P"
    unfolding a_def q_def P_def by (rule round_even_error)
  moreover have "\<bar>m\<bar> < 16777216 * P"
    using assms by (simp add: P_def power_add mult.commute)
  moreover have "\<bar>a\<bar> \<le> \<bar>m\<bar> + \<bar>a - m\<bar>"
    by simp
  ultimately have "2 * \<bar>a\<bar> < 33554433 * P"
    using abs_bound_aux [of "\<bar>a - m\<bar>" P "\<bar>m\<bar>" "\<bar>a\<bar>"] by blast
  moreover have "\<bar>a\<bar> = \<bar>q\<bar> * P"
    using P by (simp add: a_def abs_mult)
  ultimately have "(2 * \<bar>q\<bar>) * P < 33554433 * P"
    by simp
  with P have "2 * \<bar>q\<bar> < 33554433"
    by (simp only: mult_less_cancel_right)
  then show ?thesis
    unfolding q_def by simp
qed

lemma round32_Some:
  assumes "round32 m e = Some f"
  shows "valof f = real_of_int (round_even (nat (max (bitlen \<bar>m\<bar> - 24) (- 149 - e))) m)
           * 2 powi (e + int (nat (max (bitlen \<bar>m\<bar> - 24) (- 149 - e))))"
    and "is_float32 f"
proof -
  define k where "k = nat (max (bitlen \<bar>m\<bar> - 24) (- 149 - e))"
  define q where "q = round_even k m"
  define e' where "e' = e + int k"
  have e': "- 149 \<le> e'" unfolding e'_def k_def by linarith
  have "bitlen \<bar>m\<bar> \<le> int (k + 24)" by (auto simp: k_def)
  then have "\<bar>m\<bar> < 2 ^ (k + 24)"
    by (simp only: bitlen_le_iff_power nat_int) 
  then have q: "\<bar>q\<bar> \<le> 2 ^ 24"
    unfolding q_def by (rule round_even_bound)
  from assms have ov: "\<bar>q\<bar> * 2 ^ nat (e' + 149) < 2 ^ 277"
    and f: "f = (if \<bar>q\<bar> = 2 ^ 24 then Float32 (q div 2) (e' + 1) else Float32 q e')"
    by (auto simp: round32_def Let_def k_def [symmetric] q_def [symmetric] e'_def [symmetric]
        split: if_splits)
  show "valof f = real_of_int (round_even (nat (max (bitlen \<bar>m\<bar> - 24) (- 149 - e))) m)
           * 2 powi (e + int (nat (max (bitlen \<bar>m\<bar> - 24) (- 149 - e))))"
    unfolding k_def [symmetric] q_def [symmetric] e'_def [symmetric]
  proof (cases "\<bar>q\<bar> = 2 ^ 24")
    case True
    then have "q = 16777216 \<or> q = - 16777216" by (simp add: abs_if split: if_splits)
    then have "even q" by auto
    then have "real_of_int (q div 2) = real_of_int q / 2"
      by (simp add: real_of_int_div)
    with True show "valof f = real_of_int q * 2 powi e'"
      by (simp add: f power_int_add)
  next
    case False
    then show "valof f = real_of_int q * 2 powi e'" by (simp add: f)
  qed
  show "is_float32 f"
  proof (cases "\<bar>q\<bar> = 2 ^ 24")
    case True
    then have "q = 16777216 \<or> q = - 16777216" by (simp add: abs_if split: if_splits)
    then have qd: "\<bar>q div 2\<bar> = 2 ^ 23" by auto
    have "nat (e' + 1 + 149) = Suc (nat (e' + 149))" using e' by simp
    with True ov qd e' show ?thesis by (simp add: f is_float32_def)
  next
    case False
    with q ov e' show ?thesis by (simp add: f is_float32_def)
  qed
qed

lemma round32_exact:
  assumes "\<bar>m\<bar> < 2 ^ 24" and "- 149 \<le> e" and "\<bar>m\<bar> * 2 ^ nat (e + 149) < 2 ^ 277"
  shows "round32 m e = Some (Float32 m e)"
proof -
  from assms(1) have "bitlen \<bar>m\<bar> \<le> 24"
    using bitlen_abs_le [of m 24] by simp
  with assms(2) have k: "nat (max (bitlen \<bar>m\<bar> - 24) (- 149 - e)) = 0" by simp
  show ?thesis using assms by (simp add: round32_def k)
qed


lemma magnitude_iff:
  assumes "- 149 \<le> e"
  shows "\<bar>q\<bar> * 2 ^ nat (e + 149) < (2 ^ 277 :: int) \<longleftrightarrow> \<bar>real_of_int q\<bar> * 2 powi e < 2 powi 128"
proof -
  have "\<bar>q\<bar> * 2 ^ nat (e + 149) < (2 ^ 277 :: int)
      \<longleftrightarrow> real_of_int (\<bar>q\<bar> * 2 ^ nat (e + 149)) < real_of_int (2 ^ 277)"
    by (simp only: of_int_less_iff)
  also have "real_of_int (\<bar>q\<bar> * 2 ^ nat (e + 149)) = \<bar>real_of_int q\<bar> * 2 powi (e + 149)"
    using assms by (simp add: power_int_def)
  also have "\<dots> = (\<bar>real_of_int q\<bar> * 2 powi e) * 2 powi 149"
    by (simp add: power_int_add)
  also have "real_of_int (2 ^ 277) = 2 powi 128 * 2 powi 149"
    by simp
  also have "(\<bar>real_of_int q\<bar> * 2 powi e) * 2 powi 149 < 2 powi 128 * 2 powi 149
      \<longleftrightarrow> \<bar>real_of_int q\<bar> * 2 powi e < 2 powi 128"
    by (rule mult_less_cancel_right_pos) simp
  finally show ?thesis .
qed

lemma powi_less_exp: "(2::real) powi a < 2 powi b \<Longrightarrow> a < b"
proof (rule ccontr)
  assume lt: "(2::real) powi a < 2 powi b" and "\<not> a < b"
  then have "b \<le> a" by simp
  then have "(2::real) powi b \<le> 2 powi a" by (rule power_int_increasing) simp
  with lt show False by simp
qed

lemma round32_error:
  assumes e: "- 149 \<le> e" and lt: "\<bar>real_of_int m\<bar> * 2 powi e < 2 powi p" and p: "p \<le> 127"
  shows "\<exists>f. round32 m e = Some f \<and> is_float32 f
           \<and> \<bar>valof f - real_of_int m * 2 powi e\<bar> \<le> 2 powi (p - 25)"
proof -
  define k where "k = nat (max (bitlen \<bar>m\<bar> - 24) (- 149 - e))"
  define q where "q = round_even k m"
  have k: "k = nat (bitlen \<bar>m\<bar> - 24)"
    using e by (simp add: k_def max_def)
  have pp: "(2::real) powi p \<le> 2 powi 127"
    using p by (intro power_int_increasing) simp_all
  have err: "\<bar>real_of_int q * 2 powi (e + int k) - real_of_int m * 2 powi e\<bar> \<le> 2 powi (p - 25)
      \<and> \<bar>real_of_int q\<bar> * 2 powi (e + int k) < 2 powi 128"
  proof (cases "k = 0")
    case True
    then have "q = m" by (simp add: q_def)
    moreover have "\<bar>real_of_int m\<bar> * 2 powi e < 2 powi 128"
      using lt pp by (simp add: power_int_def)
    ultimately show ?thesis using True by simp
  next
    case False
    then have bl: "bitlen \<bar>m\<bar> = int k + 24" and m0: "m \<noteq> 0"
      by (auto simp: k)
    have "nat (bitlen \<bar>m\<bar> - 1) = k + 23" by (simp add: bl nat_add_distrib)
    with bitlen_abs_ge [OF m0] have "2 ^ (k + 23) \<le> \<bar>m\<bar>" by simp
    then have "real_of_int (2 ^ (k + 23)) \<le> real_of_int \<bar>m\<bar>"
      by (simp only: of_int_le_iff)
    then have "2 powi (int k + 23) \<le> \<bar>real_of_int m\<bar>"
      by (simp add: power_int_def nat_add_distrib)
    then have "2 powi (int k + 23) * 2 powi e \<le> \<bar>real_of_int m\<bar> * 2 powi e"
      by (rule mult_right_mono) simp
    moreover have "(2::real) powi (int k + 23 + e) = 2 powi (int k + 23) * 2 powi e"
      by (rule power_int_add) simp
    ultimately have "(2::real) powi (int k + 23 + e) < 2 powi p"
      using lt by (simp only: le_less_trans)
    then have "int k + 23 + e < p" by (rule powi_less_exp)
    then have ke: "int k + e - 1 \<le> p - 25" by simp
    have half: "(2::real) powi (int k + e - 1) \<le> 2 powi (p - 25)"
      using ke by (rule power_int_increasing) simp
    have "2 * \<bar>q * 2 ^ k - m\<bar> \<le> 2 ^ k"
      unfolding q_def by (rule round_even_error)
    then have "real_of_int (2 * \<bar>q * 2 ^ k - m\<bar>) \<le> real_of_int (2 ^ k)"
      by (simp only: of_int_le_iff)
    then have "\<bar>real_of_int q * 2 ^ k - real_of_int m\<bar> \<le> 2 ^ k / 2"
      by simp
    then have "\<bar>real_of_int q * 2 ^ k - real_of_int m\<bar> * 2 powi e \<le> 2 ^ k / 2 * 2 powi e"
      by (rule mult_right_mono) simp
    moreover have "\<bar>real_of_int q * 2 ^ k - real_of_int m\<bar> * 2 powi e
        = \<bar>real_of_int q * 2 powi (e + int k) - real_of_int m * 2 powi e\<bar>"
    proof -
      have "(real_of_int q * 2 ^ k - real_of_int m) * 2 powi e
          = real_of_int q * 2 powi (e + int k) - real_of_int m * 2 powi e"
        by (simp add: power_int_add algebra_simps)
      then have "\<bar>real_of_int q * 2 powi (e + int k) - real_of_int m * 2 powi e\<bar>
          = \<bar>(real_of_int q * 2 ^ k - real_of_int m) * 2 powi e\<bar>"
        by simp
      also have "\<dots> = \<bar>real_of_int q * 2 ^ k - real_of_int m\<bar> * 2 powi e"
        by (simp only: abs_mult) simp
      finally show ?thesis by simp
    qed
    moreover have "2 ^ k / 2 * 2 powi e = (2::real) powi (int k + e - 1)"
      by (simp add: power_int_add power_int_diff)
    ultimately have d: "\<bar>real_of_int q * 2 powi (e + int k) - real_of_int m * 2 powi e\<bar>
        \<le> 2 powi (p - 25)"
      using half by simp
    have "\<bar>real_of_int q\<bar> * 2 powi (e + int k) = \<bar>real_of_int q * 2 powi (e + int k)\<bar>"
      by (simp add: abs_mult)
    also have "\<dots> \<le> \<bar>real_of_int m * 2 powi e\<bar>
        + \<bar>real_of_int q * 2 powi (e + int k) - real_of_int m * 2 powi e\<bar>"
      by simp
    also have "\<dots> \<le> \<bar>real_of_int m\<bar> * 2 powi e + 2 powi (p - 25)"
      using d by (simp add: abs_mult)
    also have "\<dots> < 2 powi p + 2 powi (p - 25)"
      using lt by simp
    also have "(2::real) powi (p - 25) \<le> 2 powi p"
      by (rule power_int_increasing) simp_all
    also have "(2::real) powi p + 2 powi p = 2 powi (p + 1)"
      by (simp add: power_int_add)
    also have "\<dots> \<le> 2 powi 128"
      using p by (intro power_int_increasing) simp_all
    finally have "\<bar>real_of_int q\<bar> * 2 powi (e + int k) < 2 powi 128"
      by simp
    with d show ?thesis by simp
  qed
  have e': "- 149 \<le> e + int k" using e by simp
  from err have "\<bar>q\<bar> * 2 ^ nat (e + int k + 149) < (2 ^ 277 :: int)"
    by (simp only: magnitude_iff [OF e'])
  then obtain f where f: "round32 m e = Some f"
    by (simp add: round32_def Let_def k_def [symmetric] q_def [symmetric])
  from round32_Some [OF f] have "valof f = real_of_int q * 2 powi (e + int k)" and "is_float32 f"
    by (simp_all add: k_def [symmetric] q_def [symmetric])
  with err f show ?thesis by simp
qed

lemma round32_exponent:
  assumes "round32 m e = Some f"
  shows "e \<le> exponent f"
proof -
  define k where "k = nat (max (bitlen \<bar>m\<bar> - 24) (- 149 - e))"
  define q where "q = round_even k m"
  from assms have "f = (if \<bar>q\<bar> = 2 ^ 24 then Float32 (q div 2) (e + int k + 1) else Float32 q (e + int k))"
    unfolding round32_def Let_def k_def [symmetric] q_def [symmetric]
    by (simp split: if_splits)
  then show ?thesis by (simp split: if_splits)
qed

lemma fadd_error:
  assumes "- 149 \<le> exponent a" and "- 149 \<le> exponent b"
    and "\<bar>valof a + valof b\<bar> < 2 powi p" and "p \<le> 127"
  shows "\<exists>f. fadd a b = Some f \<and> is_float32 f
           \<and> \<bar>valof f - (valof a + valof b)\<bar> \<le> 2 powi (p - 25)"
proof -
  define e where "e = min (exponent a) (exponent b)"
  define M where "M = mantissa a * 2 ^ nat (exponent a - e) + mantissa b * 2 ^ nat (exponent b - e)"
  have e: "- 149 \<le> e" using assms(1,2) by (simp add: e_def)
  have pa: "(2::real) ^ nat (exponent a - e) * 2 powi e = 2 powi exponent a"
  proof -
    have "(2::real) ^ nat (exponent a - e) = 2 powi (exponent a - e)"
      by (simp add: power_int_def e_def)
    also have "\<dots> * 2 powi e = 2 powi (exponent a - e + e)"
      by (rule power_int_add [symmetric]) simp
    finally show ?thesis by simp
  qed
  have pb: "(2::real) ^ nat (exponent b - e) * 2 powi e = 2 powi exponent b"
  proof -
    have "(2::real) ^ nat (exponent b - e) = 2 powi (exponent b - e)"
      by (simp add: power_int_def e_def)
    also have "\<dots> * 2 powi e = 2 powi (exponent b - e + e)"
      by (rule power_int_add [symmetric]) simp
    finally show ?thesis by simp
  qed
  have "real_of_int M * 2 powi e
      = real_of_int (mantissa a) * (2 ^ nat (exponent a - e) * 2 powi e)
        + real_of_int (mantissa b) * (2 ^ nat (exponent b - e) * 2 powi e)"
    by (simp add: M_def algebra_simps)
  then have M: "real_of_int M * 2 powi e = valof a + valof b"
    by (simp only: pa pb valof_def)
  have "\<bar>real_of_int M\<bar> * 2 powi e = \<bar>real_of_int M * 2 powi e\<bar>"
    by (simp add: abs_mult)
  with assms(3) M have "\<bar>real_of_int M\<bar> * 2 powi e < 2 powi p" by simp
  from round32_error [OF e this assms(4)] show ?thesis
    by (simp add: fadd_def Let_def e_def [symmetric] M_def [symmetric] M)
qed

lemma truncate32_floor:
  "truncate32 x = (if 0 \<le> valof x then \<lfloor>valof x\<rfloor> else \<lceil>valof x\<rceil>)"
proof (cases "0 \<le> exponent x")
  case True
  then have "valof x = real_of_int (mantissa x * 2 ^ nat (exponent x))"
    by (simp add: valof_def power_int_def)
  then show ?thesis using True by (simp add: truncate32_def del: of_int_mult of_int_power)
next
  case False
  define n where "n = nat (- exponent x)"
  have v: "valof x = real_of_int (mantissa x) / real_of_int (2 ^ n)"
    using False by (simp add: valof_def power_int_def n_def field_simps)
  have "\<not> (2::real) powi exponent x \<le> 0" by (simp add: not_le)
  then have sg: "0 \<le> valof x \<longleftrightarrow> 0 \<le> mantissa x"
    by (auto simp: valof_def zero_le_mult_iff)
  show ?thesis
  proof (cases "0 \<le> mantissa x")
    case True
    then have "truncate32 x = mantissa x div 2 ^ n"
      using False by (cases "mantissa x = 0") (simp_all add: truncate32_def n_def)
    also have "\<dots> = \<lfloor>valof x\<rfloor>"
      unfolding v by (rule floor_divide_of_int_eq [symmetric])
    finally show ?thesis using True sg by simp
  next
    case neg: False
    then have "truncate32 x = - ((- mantissa x) div 2 ^ n)"
      using False by (simp add: truncate32_def n_def)
    also have "(- mantissa x) div 2 ^ n = \<lfloor>real_of_int (- mantissa x) / real_of_int (2 ^ n)\<rfloor>"
      by (rule floor_divide_of_int_eq [symmetric])
    also have "\<dots> = \<lfloor>- valof x\<rfloor>"
      by (simp add: v)
    also have "- \<lfloor>- valof x\<rfloor> = \<lceil>valof x\<rceil>"
      by (simp add: ceiling_def)
    finally show ?thesis using neg sg by simp
  qed
qed

lemma sint_push_bit_8:
  assumes "- (2 ^ 23) \<le> c" and "c < 2 ^ 23"
  shows "sint (push_bit 8 (word_of_int c :: 32 word)) = 256 * c"
proof -
  have "push_bit 8 (word_of_int c :: 32 word) = word_of_int (256 * c)"
    by (simp add: push_bit_eq_mult)
  moreover have "sint (word_of_int (256 * c) :: 32 word) = signed_take_bit 31 (256 * c)"
    by (simp only: sint_sbintrunc') simp
  moreover have "signed_take_bit 31 (256 * c) = 256 * c"
    using assms by (intro signed_take_bit_int_eq_self) simp_all
  ultimately show ?thesis by simp
qed

lemma round32_dvd_exact:
  assumes f: "round32 m e = Some f" and e: "- 149 \<le> e"
    and dvd: "2 ^ j dvd m" and lt: "\<bar>m\<bar> < 2 ^ (j + 24)"
  shows "valof f = real_of_int m * 2 powi e"
proof -
  define k where "k = nat (max (bitlen \<bar>m\<bar> - 24) (- 149 - e))"
  have "bitlen \<bar>m\<bar> \<le> int (j + 24)"
    using lt by (rule bitlen_abs_le)
  then have "k \<le> j" using e by (simp add: k_def)
  then have "(2::int) ^ k dvd 2 ^ j" by (rule le_imp_power_dvd)
  then have kd: "2 ^ k dvd m" using dvd by (rule dvd_trans)
  then have "round_even k m = m div 2 ^ k" by (rule round_even_exact)
  then have "round_even k m * 2 ^ k = m" using kd by simp
  then have "real_of_int (round_even k m) * 2 ^ k = real_of_int m"
    by (metis of_int_mult of_int_numeral of_int_power)
  moreover have "valof f = real_of_int (round_even k m) * 2 powi (e + int k)"
    using round32_Some(1) [OF f] by (simp add: k_def)
  moreover have "(2::real) powi (e + int k) = 2 powi e * 2 ^ k"
    by (simp add: power_int_add)
  ultimately show ?thesis by (simp add: mult.assoc mult.left_commute)
qed

lemma round32_int_error:
  assumes "\<bar>n\<bar> < 2 ^ 32"
  shows "\<exists>f. round32 n 0 = Some f \<and> is_float32 f \<and> 0 \<le> exponent f
       \<and> \<bar>valof f - real_of_int n\<bar> \<le> 128"
proof -
  from assms have "real_of_int \<bar>n\<bar> < real_of_int (2 ^ 32)" by (simp only: of_int_less_iff)
  then have "\<bar>real_of_int n\<bar> * 2 powi 0 < 2 powi 32" by simp
  from round32_error [of 0 n 32, OF _ this]
  obtain f where f: "round32 n 0 = Some f" "is_float32 f"
    "\<bar>valof f - real_of_int n * 2 powi 0\<bar> \<le> 2 powi (32 - 25)"
    by auto
  from round32_exponent [OF f(1)] f show ?thesis
    by simp
qed

lemma round32_int_small:
  assumes "\<bar>n\<bar> < 2 ^ 24"
  shows "round32 n 0 = Some (Float32 n 0)"
proof (rule round32_exact)
  show "\<bar>n\<bar> < 2 ^ 24" by fact
  show "- 149 \<le> (0::int)" by simp
  have "\<bar>n\<bar> * 2 ^ 149 < 2 ^ 24 * (2 ^ 149 :: int)"
    using assms by (intro mult_strict_right_mono) simp_all
  then show "\<bar>n\<bar> * 2 ^ nat (0 + 149) < (2 ^ 277 :: int)" by simp
qed

lemma sint_abs_less: "\<bar>sint (w :: 32 word)\<bar> < 2 ^ 32"
  using sint_ge [of w] sint_lt [of w] by simp

lemma fmul_ScaleInt2Float:
  assumes "is_float32 s" and "0 \<le> exponent s"
  shows "fmul s ScaleInt2Float = Some (Float32 (mantissa s) (exponent s - 31))"
proof -
  have "round32 (mantissa s) (exponent s - 31) = Some (Float32 (mantissa s) (exponent s - 31))"
  proof (rule round32_exact)
    show "\<bar>mantissa s\<bar> < 2 ^ 24" using assms(1) by (simp add: is_float32_def)
    show "- 149 \<le> exponent s - 31" using assms(2) by simp
    define c where "c = \<bar>mantissa s\<bar> * 2 ^ nat (exponent s - 31 + 149)"
    have "nat (exponent s + 149) = nat (exponent s - 31 + 149) + 31"
      using assms(2) by simp
    then have "c * 2 ^ 31 = \<bar>mantissa s\<bar> * 2 ^ nat (exponent s + 149)"
      by (simp add: c_def power_add)
    also have "\<dots> < 2 ^ 277"
      using assms(1) by (simp add: is_float32_def)
    finally have "c * 2 ^ 31 < 2 ^ 277" .
    moreover have "0 \<le> c" by (simp add: c_def)
    then have "c * 1 \<le> c * 2 ^ 31"
      by (intro mult_left_mono) simp_all
    ultimately have "c < 2 ^ 277" by (simp only: mult_1_right le_less_trans)
    then show "\<bar>mantissa s\<bar> * 2 ^ nat (exponent s - 31 + 149) < 2 ^ 277"
      by (simp only: c_def)
  qed
  then show ?thesis by (simp add: fmul_def ScaleInt2Float_def)
qed

lemma int2Float_value:
  "\<exists>s f. int_to_float w = Some s \<and> int2Float w = Some f \<and> is_float32 f
         \<and> valof f = valof s / 2 ^ 31"
proof -
  obtain s where s: "int_to_float w = Some s" "is_float32 s" "0 \<le> exponent s"
    using round32_int_error [OF sint_abs_less, of w] by (auto simp: int_to_float_def)
  define f where "f = Float32 (mantissa s) (exponent s - 31)"
  have f: "fmul s ScaleInt2Float = Some f"
    unfolding f_def using s(2,3) by (rule fmul_ScaleInt2Float)
  have "is_float32 f"
    using f round32_Some(2) by (simp add: fmul_def)
  moreover have "valof f = valof s / 2 ^ 31"
    by (simp add: f_def valof_def power_int_diff)
  ultimately show ?thesis using s f by (simp add: int2Float_def)
qed

lemma fmul_ScaleFloat2Int:
  assumes "is_float32 x" and "\<bar>valof x\<bar> < 2 ^ 100"
  shows "fmul x ScaleFloat2Int = Some (Float32 (mantissa x) (exponent x + 23))"
proof -
  have e: "- 149 \<le> exponent x" and m: "\<bar>mantissa x\<bar> < 2 ^ 24"
    using assms(1) by (simp_all add: is_float32_def)
  have "\<bar>real_of_int (mantissa x)\<bar> * 2 powi exponent x < 2 ^ 100"
    using assms(2) by (simp add: valof_def abs_mult)
  then have "\<bar>real_of_int (mantissa x)\<bar> * 2 powi exponent x * 2 powi 23 < 2 ^ 100 * 2 powi 23"
    by (intro mult_strict_right_mono) simp_all
  also have "\<dots> \<le> 2 powi 128" by simp
  finally have "\<bar>real_of_int (mantissa x)\<bar> * 2 powi (exponent x + 23) < 2 powi 128"
    by (simp add: power_int_add mult.assoc)
  with e have "\<bar>mantissa x\<bar> * 2 ^ nat (exponent x + 23 + 149) < (2 ^ 277 :: int)"
    by (subst magnitude_iff) simp_all
  with e m have "round32 (mantissa x) (exponent x + 23) = Some (Float32 (mantissa x) (exponent x + 23))"
    by (intro round32_exact) simp_all
  then show ?thesis by (simp add: fmul_def ScaleFloat2Int_def)
qed


lemma float_to_int_integer:
  assumes "- (2 ^ 31) \<le> c" and "c < 2 ^ 31"
  shows "float_to_int (Float32 c 0) = Some (word_of_int c)"
  using assms by (simp add: float_to_int_def truncate32_def)

lemma high_bound: "fadd ScaleFloat2Int (Float32 (- 1) 0) = Some (Float32 8388607 0)"
proof -
  have "round32 8388607 0 = Some (Float32 8388607 0)"
    by (rule round32_exact) simp_all
  then show ?thesis by (simp add: fadd_def ScaleFloat2Int_def)
qed

lemma constrain_step_int:
  assumes range: "- (2 ^ 31) \<le> n" "n < 2 ^ 31"
  shows "do { yf \<leftarrow> round32 n 0;
        high \<leftarrow> fadd ScaleFloat2Int (Float32 (- 1) 0);
        float_to_int (constrain_float yf (fneg ScaleFloat2Int) high) }
   = Some (word_of_int (clamp24 n))"
proof -
  have lo: "float_to_int (fneg ScaleFloat2Int) = Some (word_of_int (- (2 ^ 23)))"
    by (simp add: float_to_int_def truncate32_def fneg_def ScaleFloat2Int_def)
  have hi: "float_to_int (Float32 8388607 0) = Some (word_of_int (2 ^ 23 - 1))"
    by (simp add: float_to_int_def truncate32_def)
  have vlo: "valof (fneg ScaleFloat2Int) = - 8388608"
    by (simp add: fneg_def ScaleFloat2Int_def)
  show ?thesis
  proof (cases "\<bar>n\<bar> < 2 ^ 24")
    case True
    then have yf: "round32 n 0 = Some (Float32 n 0)"
      by (rule round32_int_small)
    consider "n < - (2 ^ 23)" | "2 ^ 23 - 1 < n" | "- (2 ^ 23) \<le> n" "n \<le> 2 ^ 23 - 1"
      by linarith
    then show ?thesis
    proof cases
      case 1
      then have "real_of_int n < - 8388608" by simp
      with 1 show ?thesis
        by (simp add: yf high_bound constrain_float_def vlo lo clamp24_def)
    next
      case 2
      then have "8388607 < real_of_int n" by simp
      with 2 show ?thesis
        by (simp add: yf high_bound constrain_float_def vlo hi clamp24_def)
    next
      case 3
      then have "\<not> real_of_int n < - 8388608" "\<not> 8388607 < real_of_int n"
        by simp_all
      with 3 range show ?thesis
        by (simp add: yf high_bound constrain_float_def vlo float_to_int_integer clamp24_def)
    qed
  next
    case False
    have "\<bar>n\<bar> < 2 ^ 32" using range by simp
    then obtain f where f: "round32 n 0 = Some f" "\<bar>valof f - real_of_int n\<bar> \<le> 128"
      using round32_int_error [of n] by auto
    from False consider "n \<le> - (2 ^ 24)" | "2 ^ 24 \<le> n"
      by linarith
    then show ?thesis
    proof cases
      case 1
      then have "real_of_int n \<le> - 16777216" by simp
      with f(2) have "valof f < - 8388608" by linarith
      with 1 show ?thesis
        by (simp add: f high_bound constrain_float_def vlo lo clamp24_def)
    next
      case 2
      then have "16777216 \<le> real_of_int n" by simp
      with f(2) have "8388607 < valof f" by linarith
      with 2 show ?thesis
        by (simp add: f high_bound constrain_float_def vlo hi clamp24_def)
    qed
  qed
qed

lemma constrain_step:
  "do { yf \<leftarrow> int_to_float y;
        high \<leftarrow> fadd ScaleFloat2Int (Float32 (- 1) 0);
        float_to_int (constrain_float yf (fneg ScaleFloat2Int) high) }
   = Some (word_of_int (clamp24 (sint y)))"
  unfolding int_to_float_def
proof (rule constrain_step_int)
  show "- (2 ^ 31) \<le> sint y" using sint_ge [of y] by simp
  show "sint y < 2 ^ 31" using sint_lt [of y] by simp
qed

lemma float2Int_unfold:
  assumes "is_float32 x" and "\<bar>valof x\<bar> < 2 ^ 100"
  shows "float2Int x = do {
     t \<leftarrow> (if 1 / 2 \<le> valof x * 2 ^ 23
          then fadd (Float32 (mantissa x) (exponent x + 23)) (Float32 1 0)
          else Some (Float32 (mantissa x) (exponent x + 23)));
     y \<leftarrow> float_to_int t;
     Some (push_bit 8 (word_of_int (clamp24 (sint y)))) }"
proof -
  have v: "valof (Float32 (mantissa x) (exponent x + 23)) = valof x * 2 ^ 23"
    by (simp add: valof_def power_int_add)
  have "float2Int x = do {
     t \<leftarrow> (if 1 / 2 \<le> valof x * 2 ^ 23
          then fadd (Float32 (mantissa x) (exponent x + 23)) (Float32 1 0)
          else Some (Float32 (mantissa x) (exponent x + 23)));
     y \<leftarrow> float_to_int t;
     y' \<leftarrow> do { yf \<leftarrow> int_to_float y;
        high \<leftarrow> fadd ScaleFloat2Int (Float32 (- 1) 0);
        float_to_int (constrain_float yf (fneg ScaleFloat2Int) high) };
     Some (push_bit 8 y') }"
    unfolding float2Int_def fmul_ScaleFloat2Int [OF assms] v [symmetric]
    by (simp only: bind_assoc Option.bind.bind_lunit)
  then show ?thesis by (simp only: constrain_step Option.bind.bind_lunit)
qed

lemma clamp24_range: "- (2 ^ 23) \<le> clamp24 n" "clamp24 n < 2 ^ 23"
  by (simp_all add: clamp24_def)

lemma sint_word_of_int_32:
  assumes "- (2 ^ 31) \<le> n" and "n < 2 ^ 31"
  shows "sint (word_of_int n :: 32 word) = n"
proof -
  have "sint (word_of_int n :: 32 word) = signed_take_bit 31 n"
    by (simp only: sint_sbintrunc') simp
  also have "\<dots> = n"
    using assms by (rule signed_take_bit_int_eq_self)
  finally show ?thesis .
qed

lemma float2Int_result:
  assumes x: "is_float32 x" "\<bar>valof x\<bar> < 2 ^ 100"
    and t: "(if 1 / 2 \<le> valof x * 2 ^ 23
             then fadd (Float32 (mantissa x) (exponent x + 23)) (Float32 1 0)
             else Some (Float32 (mantissa x) (exponent x + 23))) = Some t"
    and range: "- (2 ^ 31) \<le> truncate32 t" "truncate32 t < 2 ^ 31"
  shows "float2Int x = Some (push_bit 8 (word_of_int (clamp24 (truncate32 t))))"
proof -
  have y: "float_to_int t = Some (word_of_int (truncate32 t))"
    using range by (simp add: float_to_int_def)
  show "float2Int x = Some (push_bit 8 (word_of_int (clamp24 (truncate32 t))))"
    unfolding float2Int_unfold [OF x] t
    by (simp add: y sint_word_of_int_32 [OF range])
qed

lemma scaled_step:
  assumes x: "is_float32 x" and s: "1 / 2 \<le> valof x * 2 ^ 23" "valof x * 2 ^ 23 + 1 < 2 powi p"
    and p: "p \<le> 127"
  shows "\<exists>t. fadd (Float32 (mantissa x) (exponent x + 23)) (Float32 1 0) = Some t
           \<and> \<bar>valof t - (valof x * 2 ^ 23 + 1)\<bar> \<le> 2 powi (p - 25)"
proof -
  define sc where "sc = Float32 (mantissa x) (exponent x + 23)"
  have v: "valof sc = valof x * 2 ^ 23"
    by (simp add: sc_def valof_def power_int_add)
  have one: "valof (Float32 1 0) = 1"
    by (simp add: valof_def)
  have e: "- 149 \<le> exponent sc"
    using x by (simp add: is_float32_def sc_def)
  have "0 \<le> valof x * 2 ^ 23 + 1" using s(1) by linarith
  then have "\<bar>valof sc + valof (Float32 1 0)\<bar> < 2 powi p"
    using s(2) by (simp only: v one abs_of_nonneg)
  moreover have "- 149 \<le> exponent (Float32 1 0)" by simp
  ultimately have "\<exists>f. fadd sc (Float32 1 0) = Some f \<and> is_float32 f
      \<and> \<bar>valof f - (valof sc + valof (Float32 1 0))\<bar> \<le> 2 powi (p - 25)"
    using e p by (intro fadd_error)
  then show ?thesis
    unfolding v one sc_def [symmetric] by blast
qed

lemma dvd_sint_push_bit_8: "2 ^ 8 dvd sint (push_bit 8 w :: 32 word)"
proof -
  define X where "X = uint w * 256 + 2 ^ 31"
  have "sint (push_bit 8 w) = signed_take_bit 31 (uint w * 256)"
    by (simp add: push_bit_eq_mult sint_uint uint_word_ariths mult.commute
        signed_take_bit_eq_take_bit_shift take_bit_eq_mod mod_add_left_eq)
  also have "\<dots> = X mod 2 ^ 32 - 2 ^ 31"
    by (simp add: signed_take_bit_eq_take_bit_shift take_bit_eq_mod X_def)
  finally have "sint (push_bit 8 w) = X mod 2 ^ 32 - 2 ^ 31" .
  moreover have "(2 ^ 8 :: int) dvd X"
    by (simp add: X_def)
  then have "(2 ^ 8 :: int) dvd X mod 2 ^ 32"
    by (rule dvd_mod) simp
  then have "(2 ^ 8 :: int) dvd X mod 2 ^ 32 - 2 ^ 31"
    by (rule dvd_diff) simp
  ultimately show ?thesis by simp
qed

lemma int2Float_exact:
  assumes "2 ^ 8 dvd sint w"
  shows "\<exists>f. int2Float w = Some f \<and> is_float32 f \<and> valof f = real_of_int (sint w) / 2 ^ 31"
proof -
  obtain s f where s: "int_to_float w = Some s" and f: "int2Float w = Some f" "is_float32 f"
    "valof f = valof s / 2 ^ 31"
    using int2Float_value [of w] by blast
  have "\<bar>sint w\<bar> < 2 ^ (8 + 24)"
    using sint_abs_less [of w] by simp
  with s assms have "valof s = real_of_int (sint w) * 2 powi 0"
    unfolding int_to_float_def by (intro round32_dvd_exact [where j = 8]) simp_all
  with f show ?thesis by simp
qed

lemma int2Float_error:
  "\<exists>f. int2Float w = Some f \<and> is_float32 f \<and> \<bar>valof f - real_of_int (sint w) / 2 ^ 31\<bar> \<le> 1 / 2 ^ 24"
proof -
  define n where "n = sint w"
  obtain s f where s: "int_to_float w = Some s" and f: "int2Float w = Some f" "is_float32 f"
    "valof f = valof s / 2 ^ 31"
    using int2Float_value [of w] by blast
  have "\<bar>n\<bar> < 2 ^ 32"
    unfolding n_def by (rule sint_abs_less)
  then have "\<bar>valof s - real_of_int n\<bar> \<le> 128"
    using round32_int_error [of n] s by (auto simp: int_to_float_def n_def [symmetric])
  then have "\<bar>valof f - real_of_int n / 2 ^ 31\<bar> \<le> 1 / 2 ^ 24"
    unfolding f(3) by (simp add: field_simps)
  with f(1,2) show ?thesis
    unfolding n_def by blast
qed









text \<open>A word whose low 8 bits are zero is a word shifted left by 8 bits.\<close>

lemma wire_sample_iff: "take_bit 8 w = 0 \<longleftrightarrow> (\<exists>v. w = push_bit 8 v)" for w :: "32 word"
proof
  assume "take_bit 8 w = 0"
  then have "w = push_bit 8 (drop_bit 8 w)"
    using bits_ident [of 8 w] by simp
  then show "\<exists>v. w = push_bit 8 v" ..
next
  assume "\<exists>v. w = push_bit 8 v"
  then show "take_bit 8 w = 0" by (auto simp: take_bit_push_bit)
qed

section \<open>The sample codec: claims\<close>

text \<open>
  Claim C4. \<^verbatim>\<open>int2Float\<close> is a function of its argument alone and returns a finite \<^verbatim>\<open>float\<close>
  for every 32-bit integer \<open>w\<close>: there is no error condition. For every wire sample,
  that is every \<open>w\<close> whose low 8 bits are zero, the result is \<open>w * 2 ^ -31\<close> exactly: the
  24 significant bits of the sample fit the \<^verbatim>\<open>float\<close>, and the scaling by a power of two does
  not round.
\<close>

theorem int2Float_total_and_exact_on_wire_samples:
  "\<exists>f. int2Float w = Some f \<and> is_float32 f
      \<and> (take_bit 8 w = 0 \<longrightarrow> valof f = real_of_int (sint w) / 2 ^ 31)"
proof (cases "take_bit 8 w = 0")
  case True
  then obtain v where "w = push_bit 8 v" unfolding wire_sample_iff ..
  then have "2 ^ 8 dvd sint w" by (simp only: dvd_sint_push_bit_8)
  then show ?thesis using int2Float_exact [of w] by blast
next
  case False
  then show ?thesis using int2Float_error [of w] by blast
qed

text \<open>Claim C4 at the largest wire sample, \<open>(2 ^ 23 - 1) << 8\<close>.\<close>

theorem int2Float_total_and_exact_on_wire_samples_witness:
  "take_bit 8 (2147483392 :: 32 word) = 0
   \<and> int2Float 2147483392 = Some (Float32 16777214 (- 24))
   \<and> is_float32 (Float32 16777214 (- 24))
   \<and> valof (Float32 16777214 (- 24)) = real_of_int (sint (2147483392 :: 32 word)) / 2 ^ 31"
proof -
  have 1: "take_bit 8 (2147483392 :: 32 word) = 0" by (simp add: take_bit_eq_mod)
  have 2: "int2Float 2147483392 = Some (Float32 16777214 (- 24))" by code_simp
  from int2Float_total_and_exact_on_wire_samples [of 2147483392] 1 2 show ?thesis by simp
qed

text \<open>
  The hypothesis on the low 8 bits is needed: \<open>2 ^ 24 + 1\<close> has 25 significant bits, its
  conversion to \<^verbatim>\<open>float\<close> is \<open>2 ^ 24\<close>, and \<^verbatim>\<open>int2Float\<close> returns \<open>2 ^ -7\<close>.
\<close>

lemma int2Float_rounds_other_words:
  "int2Float 16777217 = Some (Float32 8388608 (- 30))
   \<and> take_bit 8 (16777217 :: 32 word) \<noteq> 0
   \<and> valof (Float32 8388608 (- 30)) \<noteq> real_of_int (sint (16777217 :: 32 word)) / 2 ^ 31"
proof -
  have "int2Float 16777217 = Some (Float32 8388608 (- 30))"
    by code_simp
  moreover have "take_bit 8 (16777217 :: 32 word) \<noteq> 0"
    by code_simp
  moreover have "valof (Float32 8388608 (- 30)) \<noteq> real_of_int (sint (16777217 :: 32 word)) / 2 ^ 31"
    by (simp add: valof_def)
  ultimately show ?thesis by blast
qed

lemma truncate32_nonneg:
  assumes "0 \<le> valof t"
  shows "real_of_int (truncate32 t) \<le> valof t" and "valof t < real_of_int (truncate32 t) + 1"
  using assms by (simp_all add: truncate32_floor)

lemma truncate32_neg:
  assumes "valof t < 0"
  shows "valof t \<le> real_of_int (truncate32 t)" and "real_of_int (truncate32 t) < valof t + 1"
  using assms by (simp_all add: truncate32_floor) linarith








lemma round_trip_steps:
  assumes x: "is_float32 x" and lo: "- 1 \<le> valof x" and hi: "valof x < 1"
  shows "\<exists>t. (if 1 / 2 \<le> valof x * 2 ^ 23
             then fadd (Float32 (mantissa x) (exponent x + 23)) (Float32 1 0)
             else Some (Float32 (mantissa x) (exponent x + 23))) = Some t
          \<and> - (2 ^ 31) \<le> truncate32 t \<and> truncate32 t < 2 ^ 31
          \<and> \<bar>real_of_int (clamp24 (truncate32 t)) - valof x * 2 ^ 23\<bar> \<le> 5 / 4"
proof -
  define s where "s = valof x * 2 ^ 23"
  define sc where "sc = Float32 (mantissa x) (exponent x + 23)"
  have v: "valof sc = s"
    by (simp add: sc_def s_def valof_def power_int_add)
  have sb: "- 8388608 \<le> s" "s < 8388608"
    using lo hi by (simp_all add: s_def)
  have goal: "- (2 ^ 31) \<le> truncate32 t \<and> truncate32 t < 2 ^ 31
      \<and> \<bar>real_of_int (clamp24 (truncate32 t)) - s\<bar> \<le> 5 / 4"
    if n: "(0 \<le> valof t \<and> real_of_int (truncate32 t) \<le> valof t \<and> valof t < real_of_int (truncate32 t) + 1)
         \<or> (valof t < 0 \<and> valof t \<le> real_of_int (truncate32 t) \<and> real_of_int (truncate32 t) < valof t + 1)"
      and c: "(s < 1 / 2 \<and> valof t = s)
         \<or> (1 / 2 \<le> s \<and> s + 1 < 8388608 \<and> \<bar>valof t - (s + 1)\<bar> \<le> 1 / 4)
         \<or> (8388608 \<le> s + 1 \<and> \<bar>valof t - (s + 1)\<bar> \<le> 1 / 2)"
    for t
  proof -
    define n where "n = truncate32 t"
    have r: "- 8388609 < real_of_int n" "real_of_int n < 8388611"
      using n c sb unfolding n_def [symmetric] by linarith+
    then have "real_of_int (- 8388609) < real_of_int n" "real_of_int n < real_of_int 8388611"
      by simp_all
    then have ni: "- 8388609 < n" "n < 8388611"
      by (simp_all only: of_int_less_iff)
    consider "n \<le> 8388607" | "n = 8388608" | "n = 8388609" | "n = 8388610"
      using ni by linarith
    then have "\<bar>real_of_int (clamp24 n) - s\<bar> \<le> 5 / 4"
    proof cases
      case 1
      with ni have "real_of_int (clamp24 n) = real_of_int n" by (simp add: clamp24_def)
      moreover from 1 have "real_of_int n \<le> 8388607" by simp
      ultimately show ?thesis
        using n c sb unfolding n_def [symmetric] by linarith
    next
      case 2
      then have "real_of_int (clamp24 n) = 8388607" "real_of_int n = 8388608"
        by (simp_all add: clamp24_def)
      then show ?thesis
        using n c sb unfolding n_def [symmetric] by linarith
    next
      case 3
      then have "real_of_int (clamp24 n) = 8388607" "real_of_int n = 8388609"
        by (simp_all add: clamp24_def)
      then show ?thesis
        using n c sb unfolding n_def [symmetric] by linarith
    next
      case 4
      then have "real_of_int (clamp24 n) = 8388607" "real_of_int n = 8388610"
        by (simp_all add: clamp24_def)
      then show ?thesis
        using n c sb unfolding n_def [symmetric] by linarith
    qed
    with ni show ?thesis
      unfolding n_def by simp
  qed
  have tr: "(0 \<le> valof t \<and> real_of_int (truncate32 t) \<le> valof t \<and> valof t < real_of_int (truncate32 t) + 1)
         \<or> (valof t < 0 \<and> valof t \<le> real_of_int (truncate32 t) \<and> real_of_int (truncate32 t) < valof t + 1)"
    for t
    using truncate32_nonneg [of t] truncate32_neg [of t] by (cases "0 \<le> valof t") simp_all
  show ?thesis
  proof (cases "1 / 2 \<le> s")
    case False
    then have "s < 1 / 2 \<and> valof sc = s" by (simp add: v)
    then have "- (2 ^ 31) \<le> truncate32 sc \<and> truncate32 sc < 2 ^ 31
      \<and> \<bar>real_of_int (clamp24 (truncate32 sc)) - s\<bar> \<le> 5 / 4"
      by (intro goal tr) simp
    with False show ?thesis
      unfolding s_def [symmetric] sc_def [symmetric] by simp
  next
    case True
    show ?thesis
    proof (cases "s + 1 < 8388608")
      case small: True
      then have "s + 1 < 2 powi 23" by simp
      with x True obtain t where t: "fadd sc (Float32 1 0) = Some t"
        "\<bar>valof t - (s + 1)\<bar> \<le> 2 powi (23 - 25)"
        using scaled_step [of x 23] unfolding s_def sc_def by auto
      from t(2) have "\<bar>valof t - (s + 1)\<bar> \<le> 1 / 4" by simp
      with True small have "- (2 ^ 31) \<le> truncate32 t \<and> truncate32 t < 2 ^ 31
        \<and> \<bar>real_of_int (clamp24 (truncate32 t)) - s\<bar> \<le> 5 / 4"
        by (intro goal tr) simp
      with True t(1) show ?thesis
        unfolding s_def [symmetric] sc_def [symmetric] by simp
    next
      case big: False
      have "s + 1 < 2 powi 24" using sb by simp
      with x True obtain t where t: "fadd sc (Float32 1 0) = Some t"
        "\<bar>valof t - (s + 1)\<bar> \<le> 2 powi (24 - 25)"
        using scaled_step [of x 24] unfolding s_def sc_def by auto
      from t(2) have "\<bar>valof t - (s + 1)\<bar> \<le> 1 / 2" by simp
      with big have "- (2 ^ 31) \<le> truncate32 t \<and> truncate32 t < 2 ^ 31
        \<and> \<bar>real_of_int (clamp24 (truncate32 t)) - s\<bar> \<le> 5 / 4"
        by (intro goal tr) simp
      with True t(1) show ?thesis
        unfolding s_def [symmetric] sc_def [symmetric] by simp
    qed
  qed
qed

text \<open>
  When the \<^verbatim>\<open>float\<close> sum is exact, or no 1 is added, the truncated and clamped value is within
  one unit of the scaled sample.
\<close>

lemma round_trip_exact_sum:
  assumes sb: "- 8388608 \<le> s" "s < 8388608"
    and e: "(s < 1 / 2 \<and> valof t = s) \<or> (1 / 2 \<le> s \<and> valof t = s + 1)"
  shows "\<bar>real_of_int (clamp24 (truncate32 t)) - s\<bar> \<le> 1"
proof -
  define n where "n = truncate32 t"
  have n: "(0 \<le> valof t \<and> real_of_int n \<le> valof t \<and> valof t < real_of_int n + 1)
         \<or> (valof t < 0 \<and> valof t \<le> real_of_int n \<and> real_of_int n < valof t + 1)"
    unfolding n_def
    using truncate32_nonneg [of t] truncate32_neg [of t] by (cases "0 \<le> valof t") simp_all
  have r: "- 8388609 < real_of_int n" "real_of_int n < 8388609"
    using n e sb by linarith+
  then have "real_of_int (- 8388609) < real_of_int n" "real_of_int n < real_of_int 8388609"
    by simp_all
  then have ni: "- 8388609 < n" "n < 8388609"
    by (simp_all only: of_int_less_iff)
  consider "n \<le> 8388607" | "n = 8388608"
    using ni by linarith
  then have "\<bar>real_of_int (clamp24 n) - s\<bar> \<le> 1"
  proof cases
    case 1
    with ni have "real_of_int (clamp24 n) = real_of_int n" by (simp add: clamp24_def)
    moreover from 1 have "real_of_int n \<le> 8388607" by simp
    ultimately show ?thesis
      using n e sb by linarith
  next
    case 2
    then have "real_of_int (clamp24 n) = 8388607" "real_of_int n = 8388608"
      by (simp_all add: clamp24_def)
    then show ?thesis
      using n e sb by linarith
  qed
  then show ?thesis unfolding n_def .
qed

text \<open>
  Claim C3, as amended. For every finite \<^verbatim>\<open>float\<close> \<open>x\<close> with \<open>-1 \<le> x < 1\<close> both conversions
  return and \<^verbatim>\<open>int2Float (float2Int x)\<close> differs from \<open>x\<close> by at most five quarters of the
  quantization step \<open>2 ^ -23\<close>, whether the clamp applies or not: one step for the added 1
  and the truncation, a quarter of a step for the rounding of the \<^verbatim>\<open>float\<close> sum. Where no 1 is
  added, or the sum \<^verbatim>\<open>sample + 1\<close> is itself a \<^verbatim>\<open>float\<close>, the difference is at most one step.
\<close>

theorem round_trip_within_five_quarter_steps:
  assumes "is_float32 x" and "- 1 \<le> valof x" and "valof x < 1"
  shows "\<exists>scaled w f. fmul x ScaleFloat2Int = Some scaled \<and> float2Int x = Some w
           \<and> int2Float w = Some f
           \<and> \<bar>valof f - valof x\<bar> \<le> 5 / 4 * (1 / 2 ^ 23)
           \<and> ((valof scaled < 1 / 2
                \<or> (\<exists>t. fadd scaled (Float32 1 0) = Some t \<and> valof t = valof scaled + 1))
               \<longrightarrow> \<bar>valof f - valof x\<bar> \<le> 1 / 2 ^ 23)"
proof -
  define sc where "sc = Float32 (mantissa x) (exponent x + 23)"
  define s where "s = valof x * 2 ^ 23"
  have v: "valof sc = s"
    by (simp add: sc_def s_def valof_def power_int_add)
  have sb: "- 8388608 \<le> s" "s < 8388608"
    using assms(2,3) by (simp_all add: s_def)
  obtain t where t: "(if 1 / 2 \<le> s then fadd sc (Float32 1 0) else Some sc) = Some t"
      and range: "- (2 ^ 31) \<le> truncate32 t" "truncate32 t < 2 ^ 31"
      and d: "\<bar>real_of_int (clamp24 (truncate32 t)) - s\<bar> \<le> 5 / 4"
    using round_trip_steps [OF assms] unfolding sc_def s_def by blast
  define c where "c = clamp24 (truncate32 t)"
  define w :: "32 word" where "w = push_bit 8 (word_of_int c)"
  define n where "n = sint w"
  have small: "\<bar>valof x\<bar> < 2 ^ 100"
  proof -
    have "\<bar>valof x\<bar> \<le> 1" using assms(2,3) by simp
    also have "(1::real) < 2 ^ 100" by simp
    finally show ?thesis .
  qed
  have c: "- (2 ^ 23) \<le> c" "c < 2 ^ 23"
    unfolding c_def by (rule clamp24_range)+
  have n: "n = 256 * c"
    unfolding n_def w_def using c by (rule sint_push_bit_8)
  have 0: "fmul x ScaleFloat2Int = Some sc"
    unfolding sc_def using assms(1) small by (rule fmul_ScaleFloat2Int)
  have 1: "float2Int x = Some w"
    unfolding w_def c_def
    using float2Int_result [OF assms(1) small t [unfolded sc_def s_def] range] .
  have "2 ^ 8 dvd sint w"
    unfolding w_def by (rule dvd_sint_push_bit_8)
  then obtain f where f: "int2Float w = Some f" "valof f = real_of_int n / 2 ^ 31"
    using int2Float_exact [of w] unfolding n_def by blast
  have "valof f - valof x = (real_of_int c - s) / 2 ^ 23"
    by (simp add: f(2) n s_def field_simps)
  then have eq: "\<bar>valof f - valof x\<bar> = \<bar>real_of_int c - s\<bar> / 2 ^ 23"
    by (simp only: abs_divide) simp
  have "\<bar>real_of_int c - s\<bar> / 2 ^ 23 \<le> (5 / 4) / 2 ^ 23"
    using d unfolding c_def by (rule divide_right_mono) simp
  with eq have 2: "\<bar>valof f - valof x\<bar> \<le> 5 / 4 * (1 / 2 ^ 23)" by simp
  have 3: "\<bar>valof f - valof x\<bar> \<le> 1 / 2 ^ 23"
    if h: "valof sc < 1 / 2 \<or> (\<exists>t. fadd sc (Float32 1 0) = Some t \<and> valof t = valof sc + 1)"
  proof -
    have "(s < 1 / 2 \<and> valof t = s) \<or> (1 / 2 \<le> s \<and> valof t = s + 1)"
    proof (cases "1 / 2 \<le> s")
      case True
      with t have "fadd sc (Float32 1 0) = Some t" by simp
      with h True v show ?thesis by auto
    next
      case False
      with t have "t = sc" by simp
      with False v show ?thesis by simp
    qed
    with sb have "\<bar>real_of_int c - s\<bar> \<le> 1"
      unfolding c_def by (rule round_trip_exact_sum)
    then have "\<bar>real_of_int c - s\<bar> / 2 ^ 23 \<le> 1 / 2 ^ 23"
      by (rule divide_right_mono) simp
    with eq show ?thesis by simp
  qed
  from 0 1 f(1) 2 3 show ?thesis by blast
qed

text \<open>Claim C3, as amended, at \<open>x = 3 * 2 ^ -24\<close>, where the sum \<open>1.5 + 1\<close> is exact.\<close>

theorem round_trip_within_five_quarter_steps_witness:
  "is_float32 (Float32 3 (- 24)) \<and> - 1 \<le> valof (Float32 3 (- 24))
   \<and> valof (Float32 3 (- 24)) < 1
   \<and> fmul (Float32 3 (- 24)) ScaleFloat2Int = Some (Float32 3 (- 1))
   \<and> fadd (Float32 3 (- 1)) (Float32 1 0) = Some (Float32 5 (- 1))
   \<and> valof (Float32 5 (- 1)) = valof (Float32 3 (- 1)) + 1
   \<and> (\<exists>w f. float2Int (Float32 3 (- 24)) = Some w \<and> int2Float w = Some f
           \<and> \<bar>valof f - valof (Float32 3 (- 24))\<bar> \<le> 5 / 4 * (1 / 2 ^ 23)
           \<and> \<bar>valof f - valof (Float32 3 (- 24))\<bar> \<le> 1 / 2 ^ 23)"
proof -
  have 1: "is_float32 (Float32 3 (- 24))" by (simp add: is_float32_def)
  have 2: "- 1 \<le> valof (Float32 3 (- 24))" by (simp add: valof_def)
  have 3: "valof (Float32 3 (- 24)) < 1" by (simp add: valof_def)
  have 4: "fmul (Float32 3 (- 24)) ScaleFloat2Int = Some (Float32 3 (- 1))" by code_simp
  have 5: "fadd (Float32 3 (- 1)) (Float32 1 0) = Some (Float32 5 (- 1))" by code_simp
  have 6: "valof (Float32 5 (- 1)) = valof (Float32 3 (- 1)) + 1" by (simp add: valof_def)
  from round_trip_within_five_quarter_steps [OF 1 2 3] 4 5 6 have
    "\<exists>w f. float2Int (Float32 3 (- 24)) = Some w \<and> int2Float w = Some f
           \<and> \<bar>valof f - valof (Float32 3 (- 24))\<bar> \<le> 5 / 4 * (1 / 2 ^ 23)
           \<and> \<bar>valof f - valof (Float32 3 (- 24))\<bar> \<le> 1 / 2 ^ 23"
    by (metis option.inject)
  with 1 2 3 4 5 6 show ?thesis by blast
qed

text \<open>
  Claim C3 as stated fails at the largest \<^verbatim>\<open>float\<close> below \<open>0.5\<close>, \<open>x = (2 ^ 24 - 1) * 2 ^ -25\<close>.
  The scaled value is \<open>4194303.75\<close>; the sum \<open>4194304.75\<close> lies halfway between two
  \<^verbatim>\<open>float\<close>s and is rounded to \<open>4194305\<close>, which the clamp leaves alone; the round trip
  returns \<open>4194305 * 2 ^ -23\<close>, which is \<open>1.25\<close> steps above \<open>x\<close>.
\<close>

theorem round_trip_exceeds_one_step_counterexample:
  "is_float32 (Float32 16777215 (- 25))
   \<and> - 1 \<le> valof (Float32 16777215 (- 25)) \<and> valof (Float32 16777215 (- 25)) < 1
   \<and> fmul (Float32 16777215 (- 25)) ScaleFloat2Int = Some (Float32 16777215 (- 2))
   \<and> fadd (Float32 16777215 (- 2)) (Float32 1 0) = Some (Float32 8388610 (- 1))
   \<and> truncate32 (Float32 8388610 (- 1)) = 4194305
   \<and> clamp24 4194305 = 4194305
   \<and> float2Int (Float32 16777215 (- 25)) = Some (push_bit 8 4194305)
   \<and> int2Float (push_bit 8 4194305) = Some (Float32 8388610 (- 24))
   \<and> 1 / 2 ^ 23 < \<bar>valof (Float32 8388610 (- 24)) - valof (Float32 16777215 (- 25))\<bar>"
proof -
  have "is_float32 (Float32 16777215 (- 25))" by (simp add: is_float32_def)
  moreover have "- 1 \<le> valof (Float32 16777215 (- 25))" by (simp add: valof_def)
  moreover have "valof (Float32 16777215 (- 25)) < 1" by (simp add: valof_def)
  moreover have "fmul (Float32 16777215 (- 25)) ScaleFloat2Int = Some (Float32 16777215 (- 2))"
    by code_simp
  moreover have "fadd (Float32 16777215 (- 2)) (Float32 1 0) = Some (Float32 8388610 (- 1))"
    by code_simp
  moreover have "truncate32 (Float32 8388610 (- 1)) = 4194305"
    by (simp add: truncate32_def)
  moreover have "clamp24 4194305 = 4194305"
    by (simp add: clamp24_def)
  moreover have "float2Int (Float32 16777215 (- 25)) = Some (push_bit 8 4194305)"
    by code_simp
  moreover have "int2Float (push_bit 8 4194305) = Some (Float32 8388610 (- 24))"
    by code_simp
  moreover have "1 / 2 ^ 23 < \<bar>valof (Float32 8388610 (- 24)) - valof (Float32 16777215 (- 25))\<bar>"
    by (simp add: valof_def)
  ultimately show ?thesis by blast
qed

section \<open>The driver: what each operation does\<close>

lemma setup_eq:
  "AudioDriver_setup pf r fs' channelCount' bitClkPin lrClkPin dataOutPin dataInPin enablePin' i2s_port (this, m) =
   (let config = (case i2s_config m of
                Some c \<Rightarrow> c
              | None \<Rightarrow>
                  \<lparr>mode = [I2S_MODE_MASTER, I2S_MODE_RX, I2S_MODE_TX],
                   sample_rate = fs',
                   bits_per_sample = I2S_BITS_PER_SAMPLE_24BIT,
                   channel_format = I2S_CHANNEL_FMT_RIGHT_LEFT,
                   communication_format = [I2S_COMM_FORMAT_I2S, I2S_COMM_FORMAT_I2S_MSB],
                   intr_alloc_flags = ESP_INTR_FLAG_LEVEL1,
                   dma_buf_count = 2,
                   dma_buf_len = BufferSize pf,
                   use_apll = True,
                   tx_desc_auto_clear = True,
                   fixed_mclk = fs' * 384\<rparr>);
        pins = (case pin_config m of
                Some c \<Rightarrow> c
              | None \<Rightarrow>
                  \<lparr>bck_io_num = bitClkPin,
                   ws_io_num = lrClkPin,
                   data_out_num = dataOutPin,
                   data_in_num = dataInPin\<rparr>);
        port = constrain i2s_port (I2S_NUM_0 pf) (I2S_NUM_MAX pf);
        n = channelCount' * BufferSize pf;
        fits = (4 * unat n < 2 ^ 32);
        ok1 = (read_buffer_available r \<and> fits);
        ok2 = (write_buffer_available r \<and> fits);
        zeros = replicate (4 * unat n) (0 :: byte);
        h1 = (if ok1 then heap m @ [zeros] else heap m);
        p1 = (if ok1 then Suc (length (heap m)) else 0);
        h2 = (if ok2 then h1 @ [zeros] else h1);
        p2 = (if ok2 then Suc (length h1) else 0)
    in (i2s_driver_install_ret r + i2s_set_pin_ret r + i2s_set_sample_rates_ret r
          + i2s_zero_dma_buffer_ret r,
        \<lparr>fs = fs', channelCount = channelCount', enablePin = enablePin', i2sPort = port,
          i2sBufferSize = n, i2sReadBuffer = p1, i2sWriteBuffer = p2\<rparr>,
        \<lparr>calls = calls m @
           [Call_pinMode enablePin' OUTPUT, Call_digitalWrite enablePin' LOW,
            Call_i2s_driver_install port config, Call_i2s_set_pin port pins,
            Call_i2s_set_sample_rates port fs', Call_i2s_zero_dma_buffer port,
            Call_PIN_FUNC_SELECT, Call_SET_PERI_REG_BITS, Call_delay 500,
            Call_calloc n sizeof_int32_t p1, Call_calloc n sizeof_int32_t p2],
          heap = h2, i2s_config = Some config, pin_config = Some pins\<rparr>))"
  by (cases this; cases m)
     (simp add: AudioDriver_setup_def Let_def calloc_def invoke_def sizeof_int32_t_def mult.commute
       split: prod.splits)

lemma new_calls_append [simp]: "calls m' = calls m @ cs \<Longrightarrow> new_calls m m' = cs"
  by (simp add: new_calls_def)

lemma block_at_invoke [simp]: "block_at (invoke c m) p = block_at m p"
  by (simp add: block_at_def invoke_def)

lemma sint_nonneg_eq_uint:
  assumes "0 \<le> sint (a :: 32 word)"
  shows "sint a = uint a"
proof -
  have "sint a = signed_take_bit 31 (uint a)" by (simp add: sint_uint)
  also have "\<dots> = take_bit 32 (uint a + 2 ^ 31) - 2 ^ 31"
    by (simp add: signed_take_bit_eq_take_bit_shift)
  finally have s: "sint a = (uint a + 2 ^ 31) mod 2 ^ 32 - 2 ^ 31"
    by (simp add: take_bit_eq_mod)
  have u: "0 \<le> uint a" "uint a < 2 ^ 32"
    using uint_lt2p [of a] by simp_all
  show ?thesis
  proof (cases "uint a < 2 ^ 31")
    case True
    with u have "(uint a + 2 ^ 31) mod 2 ^ 32 = uint a + 2 ^ 31" by simp
    with s show ?thesis by simp
  next
    case False
    with u have "(uint a + 2 ^ 31) mod 2 ^ 32 = uint a + 2 ^ 31 - 2 ^ 32"
      by (simp add: mod_pos_geq)
    with s have "sint a = uint a - 2 ^ 32" by simp
    with u assms show ?thesis by simp
  qed
qed

lemma unat_mult_no_overflow:
  assumes "0 \<le> sint (a :: 32 word)" and "0 \<le> sint (b :: 32 word)" and "sint a * sint b < 2 ^ 31"
  shows "int (unat (a * b)) = sint a * sint b"
proof -
  have a: "sint a = uint a"
    using assms(1) by (rule sint_nonneg_eq_uint)
  have b: "sint b = uint b"
    using assms(2) by (rule sint_nonneg_eq_uint)
  have "uint (a * b) = uint a * uint b mod 2 ^ 32"
    by (simp add: uint_word_ariths)
  also have "\<dots> = uint a * uint b"
    using assms(3) unfolding a b by simp
  finally show ?thesis by (simp add: a b)
qed

lemma unat_times_sizeof:
  assumes "4 * unat (n :: 32 word) < 2 ^ 32"
  shows "unat (n * sizeof_int32_t) = 4 * unat n"
proof -
  have "unat (n * 4) = unat n * 4 mod 2 ^ 32"
    by (simp add: unat_word_ariths)
  also have "\<dots> = 4 * unat n"
    using assms by (simp add: mult.commute)
  finally show ?thesis by (simp add: sizeof_int32_t_def)
qed

lemma word_of_nat_less_iff:
  assumes "k \<le> unat (w :: 32 word)"
  shows "(word_of_nat k :: 32 word) < w \<longleftrightarrow> k < unat w"
proof -
  have "unat (word_of_nat k :: 32 word) = k"
    using assms by (rule le_unat_uoi)
  then show ?thesis by (simp add: word_less_nat_alt)
qed

lemma store_block:
  assumes "block_at m p = Some b" and "length d \<le> length b"
  shows "\<exists>m'. store m p d = Some m' \<and> calls m' = calls m \<and> i2s_config m' = i2s_config m
           \<and> pin_config m' = pin_config m \<and> length (heap m') = length (heap m)
           \<and> block_at m' p = Some (d @ drop (length d) b)
           \<and> (\<forall>q. q \<noteq> p \<longrightarrow> block_at m' q = block_at m q)"
proof (cases "d = []")
  case True
  with assms show ?thesis by (simp add: store_def)
next
  case False
  from assms(1) have p: "0 < p" "p \<le> length (heap m)" and b: "heap m ! (p - 1) = b"
    by (auto simp: block_at_def split: if_splits)
  define m' where "m' = m\<lparr>heap := (heap m)[p - 1 := d @ drop (length d) b]\<rparr>"
  have "store m p d = Some m'"
    using False assms by (simp add: store_def m'_def)
  moreover have "block_at m' p = Some (d @ drop (length d) b)"
    using p by (simp add: block_at_def m'_def)
  moreover have "block_at m' q = block_at m q" if "q \<noteq> p" for q
  proof -
    have "q - 1 \<noteq> p - 1" if "0 < q" using that \<open>q \<noteq> p\<close> p(1) by simp
    then show ?thesis by (auto simp: block_at_def m'_def)
  qed
  ultimately show ?thesis by (simp add: m'_def)
qed

lemma store_frame:
  assumes "store m p d = Some m'"
  shows "calls m' = calls m" and "i2s_config m' = i2s_config m" and "pin_config m' = pin_config m"
    and "length (heap m') = length (heap m)" and "\<forall>q. q \<noteq> p \<longrightarrow> block_at m' q = block_at m q"
proof -
  have "calls m' = calls m \<and> i2s_config m' = i2s_config m \<and> pin_config m' = pin_config m
      \<and> length (heap m') = length (heap m) \<and> (\<forall>q. q \<noteq> p \<longrightarrow> block_at m' q = block_at m q)"
  proof (cases "d = []")
    case True
    with assms show ?thesis by (simp add: store_def)
  next
    case False
    with assms obtain b where b: "block_at m p = Some b" "length d \<le> length b"
      by (auto simp: store_def split: option.splits if_splits)
    from store_block [OF this] assms show ?thesis by auto
  qed
  then show "calls m' = calls m" and "i2s_config m' = i2s_config m" and "pin_config m' = pin_config m"
    and "length (heap m') = length (heap m)" and "\<forall>q. q \<noteq> p \<longrightarrow> block_at m' q = block_at m q"
    by simp_all
qed

lemma is_buffer_block:
  assumes "is_buffer m p n"
  obtains b where "block_at m p = Some b" and "length b = 4 * n"
  using assms by (auto simp: is_buffer_def split: option.splits)

lemma readBlock_frame:
  assumes "readBlock rd (this, m) = Some (e, this', m')"
  shows "this' = this" and "e = i2s_read_ret rd"
    and "i2s_config m' = i2s_config m" and "pin_config m' = pin_config m"
    and "length (heap m') = length (heap m)"
    and "\<forall>p. p \<noteq> i2sReadBuffer this \<longrightarrow> block_at m' p = block_at m p"
proof -
  define sz where "sz = i2sBufferSize this * sizeof_int32_t"
  define m1 where "m1 = invoke (Call_i2s_read (i2sPort this) (i2sReadBuffer this) sz 500) m"
  define d where "d = take (unat sz) (i2s_read_data rd)"
  from assms obtain m2 where st: "store m1 (i2sReadBuffer this) d = Some m2"
    and res: "this' = this" "e = i2s_read_ret rd"
      "m' = (if e \<noteq> 0 \<or> (word_of_nat (length d) :: 32 word) < sz
             then invoke (Call_Serial_println (word_of_nat (length d)))
                    (invoke (Call_Serial_print ''I2S read error: '') m2)
             else m2)"
    by (auto simp: readBlock_def Let_def sz_def m1_def d_def split: option.splits)
  have m1: "i2s_config m1 = i2s_config m" "pin_config m1 = pin_config m" "heap m1 = heap m"
    by (simp_all add: m1_def invoke_def)
  have b1: "block_at m1 p = block_at m p" for p
    by (simp add: m1_def)
  have m': "i2s_config m' = i2s_config m2" "pin_config m' = pin_config m2" "heap m' = heap m2"
    by (simp_all add: res(3) invoke_def)
  have b': "block_at m' p = block_at m2 p" for p
    by (simp add: res(3))
  from store_frame [OF st] m1 b1 m' b'
  show "this' = this" and "e = i2s_read_ret rd"
    and "i2s_config m' = i2s_config m" and "pin_config m' = pin_config m"
    and "length (heap m') = length (heap m)"
    and "\<forall>p. p \<noteq> i2sReadBuffer this \<longrightarrow> block_at m' p = block_at m p"
    using res(1,2) by simp_all
qed

lemma readBlock_configured:
  assumes c: "configured pf this m"
  shows "\<exists>m'. readBlock rd (this, m) = Some (i2s_read_ret rd, this, m')
     \<and> calls m' = calls m @
         Call_i2s_read (i2sPort this) (i2sReadBuffer this)
           (channelCount this * BufferSize pf * sizeof_int32_t) 500
         # (if i2s_read_ret rd \<noteq> 0
               \<or> length (i2s_read_data rd) < 4 * unat (channelCount this * BufferSize pf)
            then [Call_Serial_print ''I2S read error: '',
                  Call_Serial_println
                    (word_of_nat (min (length (i2s_read_data rd))
                       (4 * unat (channelCount this * BufferSize pf))))]
            else [])
     \<and> configured pf this m'"
proof -
  define n where "n = unat (i2sBufferSize this)"
  define sz where "sz = i2sBufferSize this * sizeof_int32_t"
  define m1 where "m1 = invoke (Call_i2s_read (i2sPort this) (i2sReadBuffer this) sz 500) m"
  define d where "d = take (unat sz) (i2s_read_data rd)"
  from c have eq: "i2sBufferSize this = channelCount this * BufferSize pf"
    and fits: "4 * n < 2 ^ 32" and ne: "i2sReadBuffer this \<noteq> i2sWriteBuffer this"
    and rb: "is_buffer m (i2sReadBuffer this) n" and wb: "is_buffer m (i2sWriteBuffer this) n"
    unfolding configured_def n_def by blast+
  have sz: "unat sz = 4 * n"
    unfolding sz_def n_def using fits [unfolded n_def] by (rule unat_times_sizeof)
  from rb obtain b where b: "block_at m (i2sReadBuffer this) = Some b" "length b = 4 * n"
    by (rule is_buffer_block)
  have ld: "length d = min (length (i2s_read_data rd)) (4 * n)"
    by (simp add: d_def sz min.commute)
  then have dle: "length d \<le> length b" "length d \<le> unat sz"
    by (simp_all add: b sz)
  have b1: "block_at m1 (i2sReadBuffer this) = Some b"
    by (simp add: m1_def b)
  from store_block [OF b1 dle(1)] obtain m2 where
    st: "store m1 (i2sReadBuffer this) d = Some m2" and m2: "calls m2 = calls m1"
    and rb2: "block_at m2 (i2sReadBuffer this) = Some (d @ drop (length d) b)"
    and other: "\<forall>q. q \<noteq> i2sReadBuffer this \<longrightarrow> block_at m2 q = block_at m1 q"
    by blast
  define diag where "diag \<longleftrightarrow> i2s_read_ret rd \<noteq> 0 \<or> (word_of_nat (length d) :: 32 word) < sz"
  define m' where "m' = (if diag
             then invoke (Call_Serial_println (word_of_nat (length d)))
                    (invoke (Call_Serial_print ''I2S read error: '') m2)
             else m2)"
  have run: "readBlock rd (this, m) = Some (i2s_read_ret rd, this, m')"
    by (simp add: readBlock_def Let_def sz_def [symmetric] m1_def [symmetric] d_def [symmetric]
        st diag_def m'_def)
  have "(word_of_nat (length d) :: 32 word) < sz \<longleftrightarrow> length d < unat sz"
    using dle(2) by (rule word_of_nat_less_iff)
  also have "\<dots> \<longleftrightarrow> length (i2s_read_data rd) < 4 * n"
    unfolding ld sz by (simp add: min_less_iff_disj)
  finally have diag: "diag \<longleftrightarrow> i2s_read_ret rd \<noteq> 0 \<or> length (i2s_read_data rd) < 4 * n"
    by (simp add: diag_def)
  have calls: "calls m' = calls m @ Call_i2s_read (i2sPort this) (i2sReadBuffer this) sz 500
      # (if diag then [Call_Serial_print ''I2S read error: '',
             Call_Serial_println (word_of_nat (length d))] else [])"
    by (simp add: m'_def m2 m1_def invoke_def)
  have rb': "block_at m' (i2sReadBuffer this) = Some (d @ drop (length d) b)"
    by (simp add: m'_def rb2)
  have wb': "block_at m' (i2sWriteBuffer this) = block_at m (i2sWriteBuffer this)"
    using other ne by (simp add: m'_def m1_def)
  have "length (d @ drop (length d) b) = 4 * n"
    using dle(1) b(2) by simp
  with rb' have "is_buffer m' (i2sReadBuffer this) n"
    by (simp add: is_buffer_def)
  moreover have "is_buffer m' (i2sWriteBuffer this) n"
    using wb by (simp add: is_buffer_def wb')
  ultimately have "configured pf this m'"
    using eq fits ne by (simp add: configured_def n_def)
  with run calls show ?thesis
    unfolding diag ld sz_def n_def eq by blast
qed

lemma writeBlock_frame:
  assumes "writeBlock pf wr (this, m) = Some (e, this', m')"
  shows "this' = this" and "e = i2s_write_ret wr" and "heap m' = heap m"
    and "i2s_config m' = i2s_config m" and "pin_config m' = pin_config m"
  using assms by (auto simp: writeBlock_def Let_def invoke_def split: if_splits)

lemma writeBlock_configured:
  assumes c: "configured pf this m"
  shows "\<exists>m'. writeBlock pf wr (this, m) = Some (i2s_write_ret wr, this, m')
     \<and> calls m' = calls m @
         Call_i2s_write (i2sPort this) (i2sWriteBuffer this)
           (channelCount this * BufferSize pf * sizeof_int32_t) 500
         # (if i2s_write_bytes wr = 0
            then [Call_Serial_print ''I2S write error: '', Call_Serial_println (i2s_write_bytes wr)]
            else [])
     \<and> configured pf this m'"
proof -
  define n where "n = unat (i2sBufferSize this)"
  define sz where "sz = channelCount this * BufferSize pf * sizeof_int32_t"
  from c have eq: "i2sBufferSize this = channelCount this * BufferSize pf"
    and fits: "4 * n < 2 ^ 32" and ne: "i2sReadBuffer this \<noteq> i2sWriteBuffer this"
    and rb: "is_buffer m (i2sReadBuffer this) n"
    and wb: "is_buffer m (i2sWriteBuffer this) n"
    unfolding configured_def n_def by blast+
  have sz: "unat sz = 4 * n"
    unfolding sz_def n_def eq [symmetric] using fits [unfolded n_def] by (rule unat_times_sizeof)
  from wb obtain b where b: "block_at m (i2sWriteBuffer this) = Some b" "length b = 4 * n"
    by (rule is_buffer_block)
  have r: "readable m (i2sWriteBuffer this) (unat sz)"
    by (simp add: readable_def b sz)
  define m' where "m' = (let m1 = invoke (Call_i2s_write (i2sPort this) (i2sWriteBuffer this) sz 500) m
     in if i2s_write_bytes wr < 1
        then invoke (Call_Serial_println (i2s_write_bytes wr))
               (invoke (Call_Serial_print ''I2S write error: '') m1)
        else m1)"
  have run: "writeBlock pf wr (this, m) = Some (i2s_write_ret wr, this, m')"
    using r by (simp add: writeBlock_def Let_def sz_def [symmetric] m'_def)
  have lt: "i2s_write_bytes wr < 1 \<longleftrightarrow> i2s_write_bytes wr = 0"
    by (simp add: word_less_1)
  have calls: "calls m' = calls m @ Call_i2s_write (i2sPort this) (i2sWriteBuffer this) sz 500
      # (if i2s_write_bytes wr = 0
         then [Call_Serial_print ''I2S write error: '', Call_Serial_println (i2s_write_bytes wr)]
         else [])"
    by (simp add: m'_def Let_def invoke_def lt)
  have same: "block_at m' p = block_at m p" for p
    by (simp add: m'_def Let_def)
  have "is_buffer m' (i2sReadBuffer this) n" "is_buffer m' (i2sWriteBuffer this) n"
    using rb wb by (simp_all only: is_buffer_def same)
  then have "configured pf this m'"
    unfolding configured_def n_def [symmetric] using eq fits ne by blast
  with run calls show ?thesis
    unfolding sz_def by blast
qed

lemma setup_configured:
  assumes "AudioDriver_setup pf r fs' channelCount' bitClkPin lrClkPin dataOutPin dataInPin
      enablePin' i2s_port (this, m) = (status, this', m')"
    and "i2sReadBuffer this' \<noteq> 0" and "i2sWriteBuffer this' \<noteq> 0"
  shows "configured pf this' m'"
    and "block_at m' (i2sReadBuffer this') = Some (replicate (4 * unat (channelCount' * BufferSize pf)) 0)"
    and "block_at m' (i2sWriteBuffer this') = Some (replicate (4 * unat (channelCount' * BufferSize pf)) 0)"
    and "channelCount this' = channelCount'"
proof -
  define n where "n = channelCount' * BufferSize pf"
  have ok: "read_buffer_available r \<and> 4 * unat n < 2 ^ 32"
    "write_buffer_available r \<and> 4 * unat n < 2 ^ 32"
    using assms unfolding setup_eq Let_def n_def [symmetric]
    by (auto split: if_splits)
  have this': "i2sBufferSize this' = n" "channelCount this' = channelCount'"
    "i2sReadBuffer this' = Suc (length (heap m))"
    "i2sWriteBuffer this' = Suc (Suc (length (heap m)))"
    and m': "heap m' = heap m @ [replicate (4 * unat n) 0, replicate (4 * unat n) 0]"
    using assms(1) ok unfolding setup_eq Let_def n_def [symmetric]
    by auto
  have r: "block_at m' (i2sReadBuffer this') = Some (replicate (4 * unat n) 0)"
    by (simp add: block_at_def this' m' nth_append)
  have w: "block_at m' (i2sWriteBuffer this') = Some (replicate (4 * unat n) 0)"
    by (simp add: block_at_def this' m' nth_append)
  show "configured pf this' m'"
    using ok by (simp add: configured_def is_buffer_def r w) (simp add: this' n_def)
  show "block_at m' (i2sReadBuffer this') = Some (replicate (4 * unat (channelCount' * BufferSize pf)) 0)"
    using r by (simp add: n_def)
  show "block_at m' (i2sWriteBuffer this') = Some (replicate (4 * unat (channelCount' * BufferSize pf)) 0)"
    using w by (simp add: n_def)
  show "channelCount this' = channelCount'" by fact
qed

lemma scenario_setup_eq:
  "scenario_setup =
     (0,
      \<lparr>fs = 48000, channelCount = 2, enablePin = 33, i2sPort = 0, i2sBufferSize = 128,
        i2sReadBuffer = 1, i2sWriteBuffer = 2\<rparr>,
      \<lparr>calls =
         [Call_pinMode 33 OUTPUT, Call_digitalWrite 33 LOW,
          Call_i2s_driver_install 0
            \<lparr>mode = [I2S_MODE_MASTER, I2S_MODE_RX, I2S_MODE_TX], sample_rate = 48000,
              bits_per_sample = I2S_BITS_PER_SAMPLE_24BIT,
              channel_format = I2S_CHANNEL_FMT_RIGHT_LEFT,
              communication_format = [I2S_COMM_FORMAT_I2S, I2S_COMM_FORMAT_I2S_MSB],
              intr_alloc_flags = ESP_INTR_FLAG_LEVEL1, dma_buf_count = 2, dma_buf_len = 64,
              use_apll = True, tx_desc_auto_clear = True, fixed_mclk = 18432000\<rparr>,
          Call_i2s_set_pin 0
            \<lparr>bck_io_num = 26, ws_io_num = 27, data_out_num = 14, data_in_num = 13\<rparr>,
          Call_i2s_set_sample_rates 0 48000, Call_i2s_zero_dma_buffer 0,
          Call_PIN_FUNC_SELECT, Call_SET_PERI_REG_BITS, Call_delay 500,
          Call_calloc 128 4 1, Call_calloc 128 4 2],
        heap = [replicate 512 0, replicate 512 0],
        i2s_config = Some
            \<lparr>mode = [I2S_MODE_MASTER, I2S_MODE_RX, I2S_MODE_TX], sample_rate = 48000,
              bits_per_sample = I2S_BITS_PER_SAMPLE_24BIT,
              channel_format = I2S_CHANNEL_FMT_RIGHT_LEFT,
              communication_format = [I2S_COMM_FORMAT_I2S, I2S_COMM_FORMAT_I2S_MSB],
              intr_alloc_flags = ESP_INTR_FLAG_LEVEL1, dma_buf_count = 2, dma_buf_len = 64,
              use_apll = True, tx_desc_auto_clear = True, fixed_mclk = 18432000\<rparr>,
        pin_config = Some
            \<lparr>bck_io_num = 26, ws_io_num = 27, data_out_num = 14, data_in_num = 13\<rparr>\<rparr>)"
  by (simp add: scenario_setup_def setup_eq Let_def scenario_platform_def all_succeed_def
      unset_def power_on_def constrain_def sizeof_int32_t_def)

lemma scenario_driver_eq:
  "scenario_driver = \<lparr>fs = 48000, channelCount = 2, enablePin = 33, i2sPort = 0,
     i2sBufferSize = 128, i2sReadBuffer = 1, i2sWriteBuffer = 2\<rparr>"
  by (simp add: scenario_driver_def scenario_setup_eq)

lemma scenario_heap: "heap scenario_machine = [replicate 512 0, replicate 512 0]"
  by (simp add: scenario_machine_def scenario_setup_eq)

lemma scenario_configured: "configured scenario_platform scenario_driver scenario_machine"
  by (simp add: configured_def is_buffer_def block_at_def scenario_driver_eq scenario_heap
      scenario_platform_def)

lemma setup_status:
  "fst (AudioDriver_setup pf r fs' channelCount' bitClkPin lrClkPin dataOutPin dataInPin
          enablePin' i2s_port (this, m))
     = i2s_driver_install_ret r + i2s_set_pin_ret r + i2s_set_sample_rates_ret r
         + i2s_zero_dma_buffer_ret r"
  by (simp add: setup_eq Let_def)




section \<open>The driver: claims\<close>

text \<open>
  Claim C5. For every call, whatever the collaborators answer, \<^verbatim>\<open>setup\<close> returns the sum of
  the statuses of its four calls to the transport driver (install, pin binding, sample
  rate, zeroing of the DMA buffer), added as 32-bit integers. If all four are zero the
  result is zero, and a result other than zero means that at least one of them is not
  zero.
\<close>

theorem setup_status_is_sum_of_four_steps:
  "fst (AudioDriver_setup pf r fs' channelCount' bitClkPin lrClkPin dataOutPin dataInPin
          enablePin' i2s_port (this, m))
     = i2s_driver_install_ret r + i2s_set_pin_ret r + i2s_set_sample_rates_ret r
         + i2s_zero_dma_buffer_ret r
   \<and> (i2s_driver_install_ret r = 0 \<and> i2s_set_pin_ret r = 0 \<and> i2s_set_sample_rates_ret r = 0
        \<and> i2s_zero_dma_buffer_ret r = 0
      \<longrightarrow> fst (AudioDriver_setup pf r fs' channelCount' bitClkPin lrClkPin dataOutPin dataInPin
            enablePin' i2s_port (this, m)) = 0)
   \<and> (fst (AudioDriver_setup pf r fs' channelCount' bitClkPin lrClkPin dataOutPin dataInPin
            enablePin' i2s_port (this, m)) \<noteq> 0
      \<longrightarrow> i2s_driver_install_ret r \<noteq> 0 \<or> i2s_set_pin_ret r \<noteq> 0
          \<or> i2s_set_sample_rates_ret r \<noteq> 0 \<or> i2s_zero_dma_buffer_ret r \<noteq> 0)"
  unfolding setup_status by auto

text \<open>
  Claim C5 in the scenario: zero when every step succeeds, and the status of the failing
  step (258, an invalid argument) when the pin binding alone fails.
\<close>

theorem setup_status_is_sum_of_four_steps_witness:
  "fst (AudioDriver_setup scenario_platform all_succeed 48000 2 26 27 14 13 33 0 (unset, power_on)) = 0
   \<and> fst (AudioDriver_setup scenario_platform (all_succeed\<lparr>i2s_set_pin_ret := 258\<rparr>)
        48000 2 26 27 14 13 33 0 (unset, power_on)) = 258
   \<and> i2s_set_pin_ret (all_succeed\<lparr>i2s_set_pin_ret := 258\<rparr>) \<noteq> 0"
  using setup_status_is_sum_of_four_steps [of scenario_platform all_succeed 48000 2 26 27 14 13 33 0
      unset power_on]
    setup_status_is_sum_of_four_steps [of scenario_platform "all_succeed\<lparr>i2s_set_pin_ret := 258\<rparr>"
      48000 2 26 27 14 13 33 0 unset power_on]
  by (simp add: all_succeed_def)




lemma scenario_pair: "scenario_setup = (fst scenario_setup, scenario_driver, scenario_machine)"
  by (simp add: scenario_driver_def scenario_machine_def)


text \<open>
  Claim C6. In the Configured state \<^verbatim>\<open>readBlock\<close> returns the status of the transport driver
  unchanged and leaves the state Configured. It makes one call of \<^verbatim>\<open>i2s_read\<close>, on the stored
  port, into the read buffer, for \<open>channelCount * BufferSize\<close> samples of four bytes, with
  a wait of 500 ticks; the two calls that print the diagnostic follow exactly when the
  status is not zero or fewer bytes than requested were delivered.
\<close>

theorem readBlock_requests_block_and_returns_status:
  assumes "configured pf this m"
  shows "\<exists>m'. readBlock rd (this, m) = Some (i2s_read_ret rd, this, m')
     \<and> new_calls m m' =
         Call_i2s_read (i2sPort this) (i2sReadBuffer this)
           (channelCount this * BufferSize pf * sizeof_int32_t) 500
         # (if i2s_read_ret rd \<noteq> 0
               \<or> length (i2s_read_data rd) < 4 * unat (channelCount this * BufferSize pf)
            then [Call_Serial_print ''I2S read error: '',
                  Call_Serial_println
                    (word_of_nat (min (length (i2s_read_data rd))
                       (4 * unat (channelCount this * BufferSize pf))))]
            else [])
     \<and> unat (channelCount this * BufferSize pf * sizeof_int32_t)
         = 4 * unat (channelCount this * BufferSize pf)
     \<and> (0 \<le> sint (channelCount this) \<and> 0 \<le> sint (BufferSize pf)
          \<and> sint (channelCount this) * sint (BufferSize pf) < 2 ^ 31
        \<longrightarrow> int (unat (channelCount this * BufferSize pf))
            = sint (channelCount this) * sint (BufferSize pf))
     \<and> configured pf this m'"
proof -
  from assms have "i2sBufferSize this = channelCount this * BufferSize pf"
    and "4 * unat (i2sBufferSize this) < 2 ^ 32"
    unfolding configured_def by blast+
  then have sz: "unat (channelCount this * BufferSize pf * sizeof_int32_t)
      = 4 * unat (channelCount this * BufferSize pf)"
    using unat_times_sizeof [of "channelCount this * BufferSize pf"] by simp
  obtain m' where m': "readBlock rd (this, m) = Some (i2s_read_ret rd, this, m')"
    "new_calls m m' =
         Call_i2s_read (i2sPort this) (i2sReadBuffer this)
           (channelCount this * BufferSize pf * sizeof_int32_t) 500
         # (if i2s_read_ret rd \<noteq> 0
               \<or> length (i2s_read_data rd) < 4 * unat (channelCount this * BufferSize pf)
            then [Call_Serial_print ''I2S read error: '',
                  Call_Serial_println
                    (word_of_nat (min (length (i2s_read_data rd))
                       (4 * unat (channelCount this * BufferSize pf))))]
            else [])"
    "configured pf this m'"
    using readBlock_configured [OF assms, of rd] by (auto dest: new_calls_append)
  from m' sz unat_mult_no_overflow [of "channelCount this" "BufferSize pf"] show ?thesis
    by blast
qed

text \<open>
  Claim C6 in the scenario: a short read of 100 bytes, a full read of 512 bytes, and a full
  read that the driver reports as failed with status 263, a timeout.
\<close>

theorem readBlock_requests_block_and_returns_status_witness:
  "configured scenario_platform scenario_driver scenario_machine
   \<and> sint (channelCount scenario_driver) = 2 \<and> sint (BufferSize scenario_platform) = 64
   \<and> int (unat (channelCount scenario_driver * BufferSize scenario_platform)) = 2 * 64
   \<and> (\<exists>m'. readBlock \<lparr>i2s_read_ret = 0, i2s_read_data = replicate 100 1\<rparr>
              (scenario_driver, scenario_machine) = Some (0, scenario_driver, m')
        \<and> new_calls scenario_machine m' =
             [Call_i2s_read 0 1 512 500, Call_Serial_print ''I2S read error: '',
              Call_Serial_println 100])
   \<and> (\<exists>m'. readBlock \<lparr>i2s_read_ret = 0, i2s_read_data = replicate 512 1\<rparr>
              (scenario_driver, scenario_machine) = Some (0, scenario_driver, m')
        \<and> new_calls scenario_machine m' = [Call_i2s_read 0 1 512 500])
   \<and> (\<exists>m'. readBlock \<lparr>i2s_read_ret = 263, i2s_read_data = replicate 512 1\<rparr>
              (scenario_driver, scenario_machine) = Some (263, scenario_driver, m')
        \<and> new_calls scenario_machine m' =
             [Call_i2s_read 0 1 512 500, Call_Serial_print ''I2S read error: '',
              Call_Serial_println 512])"
  using scenario_configured
    readBlock_requests_block_and_returns_status [OF scenario_configured,
      of "\<lparr>i2s_read_ret = 0, i2s_read_data = replicate 100 1\<rparr>"]
    readBlock_requests_block_and_returns_status [OF scenario_configured,
      of "\<lparr>i2s_read_ret = 0, i2s_read_data = replicate 512 1\<rparr>"]
    readBlock_requests_block_and_returns_status [OF scenario_configured,
      of "\<lparr>i2s_read_ret = 263, i2s_read_data = replicate 512 1\<rparr>"]
  by (auto simp: scenario_driver_eq scenario_platform_def sizeof_int32_t_def)

text \<open>
  Claim C7. In the Configured state \<^verbatim>\<open>writeBlock\<close> returns the status of the transport
  driver unchanged and leaves the state Configured. It makes one call of \<^verbatim>\<open>i2s_write\<close>, on
  the stored port, from the write buffer, for \<open>channelCount * BufferSize\<close> samples of four
  bytes, with a wait of 500 ticks; the diagnostic follows exactly when no byte was
  accepted, so a partial write of one byte or more prints nothing.
\<close>

theorem writeBlock_requests_block_and_returns_status:
  assumes "configured pf this m"
  shows "\<exists>m'. writeBlock pf wr (this, m) = Some (i2s_write_ret wr, this, m')
     \<and> new_calls m m' =
         Call_i2s_write (i2sPort this) (i2sWriteBuffer this)
           (channelCount this * BufferSize pf * sizeof_int32_t) 500
         # (if i2s_write_bytes wr = 0
            then [Call_Serial_print ''I2S write error: '', Call_Serial_println 0]
            else [])
     \<and> unat (channelCount this * BufferSize pf * sizeof_int32_t)
         = 4 * unat (channelCount this * BufferSize pf)
     \<and> (0 \<le> sint (channelCount this) \<and> 0 \<le> sint (BufferSize pf)
          \<and> sint (channelCount this) * sint (BufferSize pf) < 2 ^ 31
        \<longrightarrow> int (unat (channelCount this * BufferSize pf))
            = sint (channelCount this) * sint (BufferSize pf))
     \<and> configured pf this m'"
proof -
  from assms have "i2sBufferSize this = channelCount this * BufferSize pf"
    and "4 * unat (i2sBufferSize this) < 2 ^ 32"
    unfolding configured_def by blast+
  then have sz: "unat (channelCount this * BufferSize pf * sizeof_int32_t)
      = 4 * unat (channelCount this * BufferSize pf)"
    using unat_times_sizeof [of "channelCount this * BufferSize pf"] by simp
  obtain m' where m': "writeBlock pf wr (this, m) = Some (i2s_write_ret wr, this, m')"
    "new_calls m m' =
         Call_i2s_write (i2sPort this) (i2sWriteBuffer this)
           (channelCount this * BufferSize pf * sizeof_int32_t) 500
         # (if i2s_write_bytes wr = 0
            then [Call_Serial_print ''I2S write error: '', Call_Serial_println 0]
            else [])"
    "configured pf this m'"
    using writeBlock_configured [OF assms, of wr] by (auto dest: new_calls_append)
  from m' sz unat_mult_no_overflow [of "channelCount this" "BufferSize pf"] show ?thesis
    by blast
qed

text \<open>
  Claim C7 in the scenario: no byte accepted, one byte accepted, and a full write that the
  driver reports as failed with status 263.
\<close>

theorem writeBlock_requests_block_and_returns_status_witness:
  "configured scenario_platform scenario_driver scenario_machine
   \<and> sint (channelCount scenario_driver) = 2 \<and> sint (BufferSize scenario_platform) = 64
   \<and> int (unat (channelCount scenario_driver * BufferSize scenario_platform)) = 2 * 64
   \<and> (\<exists>m'. writeBlock scenario_platform \<lparr>i2s_write_ret = 0, i2s_write_bytes = 0\<rparr>
              (scenario_driver, scenario_machine) = Some (0, scenario_driver, m')
        \<and> new_calls scenario_machine m' =
             [Call_i2s_write 0 2 512 500, Call_Serial_print ''I2S write error: '',
              Call_Serial_println 0])
   \<and> (\<exists>m'. writeBlock scenario_platform \<lparr>i2s_write_ret = 0, i2s_write_bytes = 1\<rparr>
              (scenario_driver, scenario_machine) = Some (0, scenario_driver, m')
        \<and> new_calls scenario_machine m' = [Call_i2s_write 0 2 512 500])
   \<and> (\<exists>m'. writeBlock scenario_platform \<lparr>i2s_write_ret = 263, i2s_write_bytes = 512\<rparr>
              (scenario_driver, scenario_machine) = Some (263, scenario_driver, m')
        \<and> new_calls scenario_machine m' = [Call_i2s_write 0 2 512 500])"
  using scenario_configured
    writeBlock_requests_block_and_returns_status [OF scenario_configured,
      of "\<lparr>i2s_write_ret = 0, i2s_write_bytes = 0\<rparr>"]
    writeBlock_requests_block_and_returns_status [OF scenario_configured,
      of "\<lparr>i2s_write_ret = 0, i2s_write_bytes = 1\<rparr>"]
    writeBlock_requests_block_and_returns_status [OF scenario_configured,
      of "\<lparr>i2s_write_ret = 263, i2s_write_bytes = 512\<rparr>"]
  by (auto simp: scenario_driver_eq scenario_platform_def sizeof_int32_t_def)

lemma setup_buffers:
  assumes "AudioDriver_setup pf r fs' channelCount' bitClkPin lrClkPin dataOutPin dataInPin
      enablePin' i2s_port (this, m) = (status, this', m')"
  shows "i2sBufferSize this' = channelCount' * BufferSize pf"
    and "i2sReadBuffer this' \<noteq> 0
          \<longleftrightarrow> read_buffer_available r \<and> 4 * unat (channelCount' * BufferSize pf) < 2 ^ 32"
    and "i2sWriteBuffer this' \<noteq> 0
          \<longleftrightarrow> write_buffer_available r \<and> 4 * unat (channelCount' * BufferSize pf) < 2 ^ 32"
    and "i2sReadBuffer this' \<noteq> 0 \<Longrightarrow>
           block_at m' (i2sReadBuffer this')
             = Some (replicate (4 * unat (channelCount' * BufferSize pf)) 0)
           \<and> block_at m (i2sReadBuffer this') = None"
    and "i2sWriteBuffer this' \<noteq> 0 \<Longrightarrow>
           block_at m' (i2sWriteBuffer this')
             = Some (replicate (4 * unat (channelCount' * BufferSize pf)) 0)
           \<and> block_at m (i2sWriteBuffer this') = None"
    and "drop 9 (new_calls m m') =
           [Call_calloc (channelCount' * BufferSize pf) sizeof_int32_t (i2sReadBuffer this'),
            Call_calloc (channelCount' * BufferSize pf) sizeof_int32_t (i2sWriteBuffer this')]"
proof -
  define n where "n = channelCount' * BufferSize pf"
  define ok1 where "ok1 \<longleftrightarrow> read_buffer_available r \<and> 4 * unat n < 2 ^ 32"
  define ok2 where "ok2 \<longleftrightarrow> write_buffer_available r \<and> 4 * unat n < 2 ^ 32"
  define h1 where "h1 = (if ok1 then heap m @ [replicate (4 * unat n) (0 :: byte)] else heap m)"
  from assms have f: "i2sBufferSize this' = n"
    "i2sReadBuffer this' = (if ok1 then Suc (length (heap m)) else 0)"
    "i2sWriteBuffer this' = (if ok2 then Suc (length h1) else 0)"
    and h: "heap m' = (if ok2 then h1 @ [replicate (4 * unat n) 0] else h1)"
    and c: "drop 9 (new_calls m m') =
           [Call_calloc n sizeof_int32_t (i2sReadBuffer this'),
            Call_calloc n sizeof_int32_t (i2sWriteBuffer this')]"
    unfolding setup_eq Let_def n_def [symmetric] ok1_def [symmetric] ok2_def [symmetric]
      h1_def [symmetric] new_calls_def
    by auto
  show "i2sBufferSize this' = channelCount' * BufferSize pf"
    using f(1) by (simp add: n_def)
  show "i2sReadBuffer this' \<noteq> 0
          \<longleftrightarrow> read_buffer_available r \<and> 4 * unat (channelCount' * BufferSize pf) < 2 ^ 32"
    unfolding n_def [symmetric] ok1_def [symmetric] by (simp add: f(2))
  show "i2sWriteBuffer this' \<noteq> 0
          \<longleftrightarrow> write_buffer_available r \<and> 4 * unat (channelCount' * BufferSize pf) < 2 ^ 32"
    unfolding n_def [symmetric] ok2_def [symmetric] by (simp add: f(3))
  show "block_at m' (i2sReadBuffer this')
             = Some (replicate (4 * unat (channelCount' * BufferSize pf)) 0)
           \<and> block_at m (i2sReadBuffer this') = None"
    if "i2sReadBuffer this' \<noteq> 0"
  proof -
    from that have ok1 by (simp add: f(2) split: if_splits)
    then show ?thesis
      unfolding n_def [symmetric]
      by (simp add: block_at_def f(2) h h1_def nth_append)
  qed
  show "block_at m' (i2sWriteBuffer this')
             = Some (replicate (4 * unat (channelCount' * BufferSize pf)) 0)
           \<and> block_at m (i2sWriteBuffer this') = None"
    if "i2sWriteBuffer this' \<noteq> 0"
  proof -
    from that have ok2 by (simp add: f(3) split: if_splits)
    then show ?thesis
      unfolding n_def [symmetric]
      by (simp add: block_at_def f(3) h h1_def nth_append)
  qed
  show "drop 9 (new_calls m m') =
           [Call_calloc (channelCount' * BufferSize pf) sizeof_int32_t (i2sReadBuffer this'),
            Call_calloc (channelCount' * BufferSize pf) sizeof_int32_t (i2sWriteBuffer this')]"
    using c by (simp add: n_def)
qed

text \<open>
  Claim C8, as amended. A \<^verbatim>\<open>setup\<close> with channel count \<open>c\<close> sets \<open>i2sBufferSize\<close> to
  \<open>c * BufferSize\<close>, the product of the 32-bit integers, and ends with two calls of
  \<^verbatim>\<open>calloc\<close> for that many elements of four bytes. Each buffer pointer is other than \<^verbatim>\<open>NULL\<close>
  exactly when \<^verbatim>\<open>calloc\<close> finds the memory, and then the buffer is a new block of
  \<open>c * BufferSize\<close> samples of four bytes, all zero. When both are allocated they are two
  different blocks and a following \<^verbatim>\<open>readBlock\<close> or \<^verbatim>\<open>writeBlock\<close> requests four times
  \<open>c * BufferSize\<close> bytes. The status is the sum of the four statuses of the transport
  driver whether the buffers are allocated or not.
\<close>

theorem setup_allocates_zeroed_buffers:
  assumes "AudioDriver_setup pf r fs' channelCount' bitClkPin lrClkPin dataOutPin dataInPin
      enablePin' i2s_port (this, m) = (status, this', m')"
  shows "i2sBufferSize this' = channelCount' * BufferSize pf
     \<and> drop 9 (new_calls m m') =
           [Call_calloc (channelCount' * BufferSize pf) sizeof_int32_t (i2sReadBuffer this'),
            Call_calloc (channelCount' * BufferSize pf) sizeof_int32_t (i2sWriteBuffer this')]
     \<and> (i2sReadBuffer this' \<noteq> 0
          \<longleftrightarrow> read_buffer_available r \<and> 4 * unat (channelCount' * BufferSize pf) < 2 ^ 32)
     \<and> (i2sWriteBuffer this' \<noteq> 0
          \<longleftrightarrow> write_buffer_available r \<and> 4 * unat (channelCount' * BufferSize pf) < 2 ^ 32)
     \<and> (i2sReadBuffer this' \<noteq> 0 \<longrightarrow>
           block_at m' (i2sReadBuffer this')
             = Some (replicate (4 * unat (channelCount' * BufferSize pf)) 0)
           \<and> block_at m (i2sReadBuffer this') = None)
     \<and> (i2sWriteBuffer this' \<noteq> 0 \<longrightarrow>
           block_at m' (i2sWriteBuffer this')
             = Some (replicate (4 * unat (channelCount' * BufferSize pf)) 0)
           \<and> block_at m (i2sWriteBuffer this') = None)
     \<and> (i2sReadBuffer this' \<noteq> 0 \<and> i2sWriteBuffer this' \<noteq> 0 \<longrightarrow>
           i2sReadBuffer this' \<noteq> i2sWriteBuffer this'
           \<and> unat (channelCount' * BufferSize pf * sizeof_int32_t)
                = 4 * unat (channelCount' * BufferSize pf)
           \<and> (\<forall>rd. \<exists>m'' cs. readBlock rd (this', m') = Some (i2s_read_ret rd, this', m'')
                 \<and> new_calls m' m'' =
                     Call_i2s_read (i2sPort this') (i2sReadBuffer this')
                       (channelCount' * BufferSize pf * sizeof_int32_t) 500 # cs)
           \<and> (\<forall>wr. \<exists>m'' cs. writeBlock pf wr (this', m') = Some (i2s_write_ret wr, this', m'')
                 \<and> new_calls m' m'' =
                     Call_i2s_write (i2sPort this') (i2sWriteBuffer this')
                       (channelCount' * BufferSize pf * sizeof_int32_t) 500 # cs))
     \<and> (0 \<le> sint channelCount' \<and> 0 \<le> sint (BufferSize pf)
          \<and> sint channelCount' * sint (BufferSize pf) < 2 ^ 31
        \<longrightarrow> int (unat (channelCount' * BufferSize pf)) = sint channelCount' * sint (BufferSize pf))
     \<and> status = i2s_driver_install_ret r + i2s_set_pin_ret r + i2s_set_sample_rates_ret r
         + i2s_zero_dma_buffer_ret r"
proof -
  note b = setup_buffers [OF assms]
  have both: "i2sReadBuffer this' \<noteq> i2sWriteBuffer this'
           \<and> unat (channelCount' * BufferSize pf * sizeof_int32_t)
                = 4 * unat (channelCount' * BufferSize pf)
           \<and> (\<forall>rd. \<exists>m'' cs. readBlock rd (this', m') = Some (i2s_read_ret rd, this', m'')
                 \<and> new_calls m' m'' =
                     Call_i2s_read (i2sPort this') (i2sReadBuffer this')
                       (channelCount' * BufferSize pf * sizeof_int32_t) 500 # cs)
           \<and> (\<forall>wr. \<exists>m'' cs. writeBlock pf wr (this', m') = Some (i2s_write_ret wr, this', m'')
                 \<and> new_calls m' m'' =
                     Call_i2s_write (i2sPort this') (i2sWriteBuffer this')
                       (channelCount' * BufferSize pf * sizeof_int32_t) 500 # cs)"
    if nz: "i2sReadBuffer this' \<noteq> 0 \<and> i2sWriteBuffer this' \<noteq> 0"
  proof -
    from nz have nz1: "i2sReadBuffer this' \<noteq> 0" and nz2: "i2sWriteBuffer this' \<noteq> 0"
      by blast+
    note c = setup_configured [OF assms nz1 nz2]
    from c(1) have eq: "i2sBufferSize this' = channelCount this' * BufferSize pf"
      and fits: "4 * unat (i2sBufferSize this') < 2 ^ 32"
      and ne: "i2sReadBuffer this' \<noteq> i2sWriteBuffer this'"
      unfolding configured_def by blast+
    have eq': "i2sBufferSize this' = channelCount' * BufferSize pf"
      using eq c(4) by simp
    have sz: "unat (channelCount' * BufferSize pf * sizeof_int32_t)
        = 4 * unat (channelCount' * BufferSize pf)"
      using fits unfolding eq' by (rule unat_times_sizeof)
    have rd: "\<exists>m'' cs. readBlock rd (this', m') = Some (i2s_read_ret rd, this', m'')
             \<and> new_calls m' m'' =
                 Call_i2s_read (i2sPort this') (i2sReadBuffer this')
                   (channelCount' * BufferSize pf * sizeof_int32_t) 500 # cs" for rd
      using readBlock_configured [OF c(1), of rd] unfolding c(4)
      by (auto dest: new_calls_append)
    have wr: "\<exists>m'' cs. writeBlock pf wr (this', m') = Some (i2s_write_ret wr, this', m'')
             \<and> new_calls m' m'' =
                 Call_i2s_write (i2sPort this') (i2sWriteBuffer this')
                   (channelCount' * BufferSize pf * sizeof_int32_t) 500 # cs" for wr
      using writeBlock_configured [OF c(1), of wr] unfolding c(4)
      by (auto dest: new_calls_append)
    from ne sz rd wr show ?thesis by blast
  qed
  have st: "status = i2s_driver_install_ret r + i2s_set_pin_ret r + i2s_set_sample_rates_ret r
         + i2s_zero_dma_buffer_ret r"
    using setup_status [of pf r fs' channelCount' bitClkPin lrClkPin dataOutPin dataInPin
      enablePin' i2s_port this m] by (simp add: assms)
  from b(1) b(6) b(2) b(3) b(4) b(5) both st
    unat_mult_no_overflow [of channelCount' "BufferSize pf"]
  show ?thesis by blast
qed

text \<open>
  Claim C8, as amended, in the scenario: a sample rate of 48000, two channels and a block of
  64 frames give two buffers of 128 samples, and every \<^verbatim>\<open>readBlock\<close> or \<^verbatim>\<open>writeBlock\<close> requests
  512 bytes.
\<close>

theorem setup_allocates_zeroed_buffers_witness:
  "\<exists>this' m'.
     AudioDriver_setup scenario_platform all_succeed 48000 2 26 27 14 13 33 0 (unset, power_on)
       = (0, this', m')
     \<and> read_buffer_available all_succeed \<and> write_buffer_available all_succeed
     \<and> 4 * unat ((2 :: 32 word) * BufferSize scenario_platform) < (2 :: nat) ^ 32
     \<and> i2sReadBuffer this' \<noteq> 0 \<and> i2sWriteBuffer this' \<noteq> 0
     \<and> block_at m' (i2sReadBuffer this') = Some (replicate (4 * 128) 0)
     \<and> block_at m' (i2sWriteBuffer this') = Some (replicate (4 * 128) 0)
     \<and> block_at power_on (i2sReadBuffer this') = None
     \<and> block_at power_on (i2sWriteBuffer this') = None
     \<and> i2sReadBuffer this' \<noteq> i2sWriteBuffer this'
     \<and> i2sBufferSize this' = 128
     \<and> sint (2 :: 32 word) = 2 \<and> sint (BufferSize scenario_platform) = 64
     \<and> int (unat ((2 :: 32 word) * BufferSize scenario_platform)) = 2 * 64
     \<and> (\<forall>rd. \<exists>m'' cs. readBlock rd (this', m') = Some (i2s_read_ret rd, this', m'')
           \<and> new_calls m' m'' = Call_i2s_read 0 (i2sReadBuffer this') 512 500 # cs)
     \<and> (\<forall>wr. \<exists>m'' cs. writeBlock scenario_platform wr (this', m')
             = Some (i2s_write_ret wr, this', m'')
           \<and> new_calls m' m'' = Call_i2s_write 0 (i2sWriteBuffer this') 512 500 # cs)"
proof -
  have s: "AudioDriver_setup scenario_platform all_succeed 48000 2 26 27 14 13 33 0 (unset, power_on)
       = (0, scenario_driver, scenario_machine)"
    using scenario_pair by (simp add: scenario_setup_def [symmetric] scenario_setup_eq)
  have a: "read_buffer_available all_succeed" "write_buffer_available all_succeed"
    by (simp_all add: all_succeed_def)
  have v: "BufferSize scenario_platform = 64" "i2sPort scenario_driver = 0"
    "(2 :: 32 word) * 64 = 128" "(128 :: 32 word) * sizeof_int32_t = 512" "unat (128 :: 32 word) = 128"
    by (simp_all add: scenario_platform_def scenario_driver_eq sizeof_int32_t_def)
  have n: "sint (2 :: 32 word) = 2" "sint (64 :: 32 word) = 64"
    by simp_all
  from setup_allocates_zeroed_buffers [OF s] s a n show ?thesis
    unfolding v by simp
qed

text \<open>
  Claim C8 as stated fails in the scenario on a machine without memory: \<^verbatim>\<open>setup\<close> returns 0,
  the status of success, with a buffer length of 128 and both buffer pointers \<^verbatim>\<open>NULL\<close>; no
  block is allocated, and a following \<^verbatim>\<open>readBlock\<close> or \<^verbatim>\<open>writeBlock\<close> passes \<^verbatim>\<open>NULL\<close> to the
  transport driver.
\<close>

theorem setup_succeeds_without_buffers_counterexample:
  "fst scenario_setup_out_of_memory = 0
   \<and> channelCount (fst (snd scenario_setup_out_of_memory)) = 2
   \<and> i2sBufferSize (fst (snd scenario_setup_out_of_memory)) = 128
   \<and> i2sReadBuffer (fst (snd scenario_setup_out_of_memory)) = 0
   \<and> i2sWriteBuffer (fst (snd scenario_setup_out_of_memory)) = 0
   \<and> heap (snd (snd scenario_setup_out_of_memory)) = []
   \<and> block_at (snd (snd scenario_setup_out_of_memory)) 0 = None
   \<and> readBlock \<lparr>i2s_read_ret = 0, i2s_read_data = [1]\<rparr> (snd scenario_setup_out_of_memory) = None
   \<and> writeBlock scenario_platform \<lparr>i2s_write_ret = 0, i2s_write_bytes = 512\<rparr>
        (snd scenario_setup_out_of_memory) = None"
proof -
  have e: "scenario_setup_out_of_memory =
     (0,
      \<lparr>fs = 48000, channelCount = 2, enablePin = 33, i2sPort = 0, i2sBufferSize = 128,
        i2sReadBuffer = 0, i2sWriteBuffer = 0\<rparr>,
      \<lparr>calls =
         [Call_pinMode 33 OUTPUT, Call_digitalWrite 33 LOW,
          Call_i2s_driver_install 0
            \<lparr>mode = [I2S_MODE_MASTER, I2S_MODE_RX, I2S_MODE_TX], sample_rate = 48000,
              bits_per_sample = I2S_BITS_PER_SAMPLE_24BIT,
              channel_format = I2S_CHANNEL_FMT_RIGHT_LEFT,
              communication_format = [I2S_COMM_FORMAT_I2S, I2S_COMM_FORMAT_I2S_MSB],
              intr_alloc_flags = ESP_INTR_FLAG_LEVEL1, dma_buf_count = 2, dma_buf_len = 64,
              use_apll = True, tx_desc_auto_clear = True, fixed_mclk = 18432000\<rparr>,
          Call_i2s_set_pin 0
            \<lparr>bck_io_num = 26, ws_io_num = 27, data_out_num = 14, data_in_num = 13\<rparr>,
          Call_i2s_set_sample_rates 0 48000, Call_i2s_zero_dma_buffer 0,
          Call_PIN_FUNC_SELECT, Call_SET_PERI_REG_BITS, Call_delay 500,
          Call_calloc 128 4 0, Call_calloc 128 4 0],
        heap = [],
        i2s_config = Some
            \<lparr>mode = [I2S_MODE_MASTER, I2S_MODE_RX, I2S_MODE_TX], sample_rate = 48000,
              bits_per_sample = I2S_BITS_PER_SAMPLE_24BIT,
              channel_format = I2S_CHANNEL_FMT_RIGHT_LEFT,
              communication_format = [I2S_COMM_FORMAT_I2S, I2S_COMM_FORMAT_I2S_MSB],
              intr_alloc_flags = ESP_INTR_FLAG_LEVEL1, dma_buf_count = 2, dma_buf_len = 64,
              use_apll = True, tx_desc_auto_clear = True, fixed_mclk = 18432000\<rparr>,
        pin_config = Some
            \<lparr>bck_io_num = 26, ws_io_num = 27, data_out_num = 14, data_in_num = 13\<rparr>\<rparr>)"
    by (simp add: scenario_setup_out_of_memory_def out_of_memory_def setup_eq Let_def
        scenario_platform_def all_succeed_def unset_def power_on_def constrain_def
        sizeof_int32_t_def)
  show ?thesis
    unfolding e
    by (simp add: block_at_def readBlock_def writeBlock_def Let_def store_def invoke_def
        readable_def sizeof_int32_t_def scenario_platform_def)
qed

lemma setup_calls:
  assumes "AudioDriver_setup pf r fs' channelCount' bitClkPin lrClkPin dataOutPin dataInPin
      enablePin' i2s_port (this, m) = (status, this', m')"
  shows "\<exists>cfg pins. i2s_config m' = Some cfg \<and> pin_config m' = Some pins
     \<and> (case i2s_config m of Some c \<Rightarrow> cfg = c
         | None \<Rightarrow> sample_rate cfg = fs' \<and> fixed_mclk cfg = fs' * 384
             \<and> dma_buf_len cfg = BufferSize pf)
     \<and> (case pin_config m of Some c \<Rightarrow> pins = c
         | None \<Rightarrow> pins = \<lparr>bck_io_num = bitClkPin, ws_io_num = lrClkPin,
             data_out_num = dataOutPin, data_in_num = dataInPin\<rparr>)
     \<and> new_calls m m' =
          [Call_pinMode enablePin' OUTPUT, Call_digitalWrite enablePin' LOW,
           Call_i2s_driver_install (i2sPort this') cfg, Call_i2s_set_pin (i2sPort this') pins,
           Call_i2s_set_sample_rates (i2sPort this') fs',
           Call_i2s_zero_dma_buffer (i2sPort this'),
           Call_PIN_FUNC_SELECT, Call_SET_PERI_REG_BITS, Call_delay 500,
           Call_calloc (i2sBufferSize this') sizeof_int32_t (i2sReadBuffer this'),
           Call_calloc (i2sBufferSize this') sizeof_int32_t (i2sWriteBuffer this')]
     \<and> fs this' = fs' \<and> channelCount this' = channelCount' \<and> enablePin this' = enablePin'
     \<and> i2sPort this' = constrain i2s_port (I2S_NUM_0 pf) (I2S_NUM_MAX pf)
     \<and> i2sBufferSize this' = channelCount' * BufferSize pf"
  using assms unfolding setup_eq Let_def new_calls_def
  by (auto split: option.splits)

lemma setup_ignores_pins_once_bound:
  assumes "pin_config m \<noteq> None"
  shows "AudioDriver_setup pf r fs' channelCount' bitClkPin lrClkPin dataOutPin dataInPin
      enablePin' i2s_port (this, m)
    = AudioDriver_setup pf r fs' channelCount' bck ws dout din enablePin' i2s_port (this, m)"
  using assms unfolding setup_eq by auto

text \<open>
  Claim C9, as amended. Let a first \<^verbatim>\<open>setup\<close> run while the two static structures are not yet
  initialised, and let a later \<^verbatim>\<open>setup\<close>, with any arguments, on any object, start in a state
  where the statics are as the first call left them. Then the later call installs the
  driver and binds the pins with the structures of the first call: the first sample
  rate, the first sample rate times 384 as master clock, the first pin numbers; and it
  leaves the statics as they were. Of the later arguments, the four clock and data pin
  numbers have no effect at all; the sample rate is stored and passed to the call that
  sets the sample rate; the enable pin, the selector and the channel count are stored and
  reach the other calls too: the enable pin the two GPIO calls, the clamped selector the
  four calls to the transport driver, the channel count the size of the two allocations.
\<close>

theorem setup_statics_keep_first_configuration:
  assumes first: "AudioDriver_setup pf r1 fs1 cc1 bck1 ws1 dout1 din1 en1 port1 (this0, m0)
      = (s1, this1, m1)"
    and fresh: "i2s_config m0 = None" "pin_config m0 = None"
    and later: "i2s_config m2 = i2s_config m1" "pin_config m2 = pin_config m1"
    and second: "AudioDriver_setup pf r2 fs2 cc2 bck2 ws2 dout2 din2 en2 port2 (this2, m2)
      = (s2, this3, m3)"
  shows "\<exists>cfg pins.
       sample_rate cfg = fs1 \<and> fixed_mclk cfg = fs1 * 384
     \<and> pins = \<lparr>bck_io_num = bck1, ws_io_num = ws1, data_out_num = dout1, data_in_num = din1\<rparr>
     \<and> i2s_config m1 = Some cfg \<and> pin_config m1 = Some pins
     \<and> new_calls m2 m3 =
          [Call_pinMode en2 OUTPUT, Call_digitalWrite en2 LOW,
           Call_i2s_driver_install (i2sPort this3) cfg, Call_i2s_set_pin (i2sPort this3) pins,
           Call_i2s_set_sample_rates (i2sPort this3) fs2,
           Call_i2s_zero_dma_buffer (i2sPort this3),
           Call_PIN_FUNC_SELECT, Call_SET_PERI_REG_BITS, Call_delay 500,
           Call_calloc (cc2 * BufferSize pf) sizeof_int32_t (i2sReadBuffer this3),
           Call_calloc (cc2 * BufferSize pf) sizeof_int32_t (i2sWriteBuffer this3)]
     \<and> i2s_config m3 = i2s_config m1 \<and> pin_config m3 = pin_config m1
     \<and> fs this3 = fs2 \<and> channelCount this3 = cc2 \<and> enablePin this3 = en2
     \<and> i2sPort this3 = (if port2 < I2S_NUM_0 pf then I2S_NUM_0 pf
                          else if I2S_NUM_MAX pf < port2 then I2S_NUM_MAX pf else port2)
     \<and> i2sBufferSize this3 = cc2 * BufferSize pf
     \<and> (\<forall>bck ws dout din.
           AudioDriver_setup pf r2 fs2 cc2 bck ws dout din en2 port2 (this2, m2) = (s2, this3, m3))"
proof -
  from setup_calls [OF first] fresh obtain cfg pins where
    1: "i2s_config m1 = Some cfg" "pin_config m1 = Some pins"
      "sample_rate cfg = fs1" "fixed_mclk cfg = fs1 * 384"
      "pins = \<lparr>bck_io_num = bck1, ws_io_num = ws1, data_out_num = dout1, data_in_num = din1\<rparr>"
    by auto
  from setup_calls [OF second] later 1(1,2) have
    2: "i2s_config m3 = Some cfg" "pin_config m3 = Some pins"
      "new_calls m2 m3 =
          [Call_pinMode en2 OUTPUT, Call_digitalWrite en2 LOW,
           Call_i2s_driver_install (i2sPort this3) cfg, Call_i2s_set_pin (i2sPort this3) pins,
           Call_i2s_set_sample_rates (i2sPort this3) fs2,
           Call_i2s_zero_dma_buffer (i2sPort this3),
           Call_PIN_FUNC_SELECT, Call_SET_PERI_REG_BITS, Call_delay 500,
           Call_calloc (i2sBufferSize this3) sizeof_int32_t (i2sReadBuffer this3),
           Call_calloc (i2sBufferSize this3) sizeof_int32_t (i2sWriteBuffer this3)]"
      "fs this3 = fs2" "channelCount this3 = cc2" "enablePin this3 = en2"
      "i2sPort this3 = constrain port2 (I2S_NUM_0 pf) (I2S_NUM_MAX pf)"
      "i2sBufferSize this3 = cc2 * BufferSize pf"
    by auto
  have 3: "i2sPort this3 = (if port2 < I2S_NUM_0 pf then I2S_NUM_0 pf
                          else if I2S_NUM_MAX pf < port2 then I2S_NUM_MAX pf else port2)"
    unfolding 2(7) by (simp add: constrain_def)
  have "pin_config m2 \<noteq> None" using later(2) 1(2) by simp
  then have 4: "AudioDriver_setup pf r2 fs2 cc2 bck ws dout din en2 port2 (this2, m2)
      = (s2, this3, m3)" for bck ws dout din
    using setup_ignores_pins_once_bound [of m2 pf r2 fs2 cc2 bck ws dout din en2 port2 this2
      bck2 ws2 dout2 din2] second by simp
  from 1 2(1,2,4,5,6,8) 2(3) [unfolded 2(8)] 3 4 show ?thesis by simp
qed

text \<open>
  Claim C9, as amended, in the scenario, followed by a second \<^verbatim>\<open>setup\<close> with a sample rate of
  44100, one channel, the pins 1, 2, 3, 4 and 5 and port 1.
\<close>

theorem setup_statics_keep_first_configuration_witness:
  "\<exists>s2 this3 m3 cfg pins.
     AudioDriver_setup scenario_platform all_succeed 48000 2 26 27 14 13 33 0 (unset, power_on)
       = (0, scenario_driver, scenario_machine)
     \<and> i2s_config power_on = None \<and> pin_config power_on = None
     \<and> AudioDriver_setup scenario_platform all_succeed 44100 1 1 2 3 4 5 1
         (scenario_driver, scenario_machine) = (s2, this3, m3)
     \<and> sample_rate cfg = 48000 \<and> fixed_mclk cfg = 48000 * 384
     \<and> pins = \<lparr>bck_io_num = 26, ws_io_num = 27, data_out_num = 14, data_in_num = 13\<rparr>
     \<and> new_calls scenario_machine m3 =
          [Call_pinMode 5 OUTPUT, Call_digitalWrite 5 LOW,
           Call_i2s_driver_install 1 cfg, Call_i2s_set_pin 1 pins,
           Call_i2s_set_sample_rates 1 44100, Call_i2s_zero_dma_buffer 1,
           Call_PIN_FUNC_SELECT, Call_SET_PERI_REG_BITS, Call_delay 500,
           Call_calloc 64 sizeof_int32_t (i2sReadBuffer this3),
           Call_calloc 64 sizeof_int32_t (i2sWriteBuffer this3)]
     \<and> fs this3 = 44100 \<and> channelCount this3 = 1 \<and> enablePin this3 = 5 \<and> i2sPort this3 = 1
     \<and> AudioDriver_setup scenario_platform all_succeed 44100 1 26 27 14 13 5 1
         (scenario_driver, scenario_machine) = (s2, this3, m3)"
proof -
  have s: "AudioDriver_setup scenario_platform all_succeed 48000 2 26 27 14 13 33 0 (unset, power_on)
       = (0, scenario_driver, scenario_machine)"
    using scenario_pair by (simp add: scenario_setup_def [symmetric] scenario_setup_eq)
  have f: "i2s_config power_on = None" "pin_config power_on = None"
    by (simp_all add: power_on_def)
  obtain s2 this3 m3 where t: "AudioDriver_setup scenario_platform all_succeed 44100 1 1 2 3 4 5 1
         (scenario_driver, scenario_machine) = (s2, this3, m3)"
    by (rule prod_cases3)
  have v: "I2S_NUM_0 scenario_platform = 0" "I2S_NUM_MAX scenario_platform = 2"
    "(1 :: 32 word) * BufferSize scenario_platform = 64"
    by (simp_all add: scenario_platform_def)
  from setup_statics_keep_first_configuration [OF s f refl refl t] s f t show ?thesis
    unfolding v by (elim exE conjE) (intro exI conjI, simp_all)
qed

text \<open>
  Claim C9 as stated fails in its last clause. The scenario followed by a second \<^verbatim>\<open>setup\<close>
  with the same sample rate and the same clock and data pins, but one channel, enable pin 5
  and port 1: the new enable pin is in the two GPIO calls, the new port in the four calls
  to the transport driver, the new channel count in the size of the two allocations.
\<close>

theorem later_setup_arguments_reach_other_calls_counterexample:
  "new_calls power_on scenario_machine =
     [Call_pinMode 33 OUTPUT, Call_digitalWrite 33 LOW,
      Call_i2s_driver_install 0
        \<lparr>mode = [I2S_MODE_MASTER, I2S_MODE_RX, I2S_MODE_TX], sample_rate = 48000,
          bits_per_sample = I2S_BITS_PER_SAMPLE_24BIT,
          channel_format = I2S_CHANNEL_FMT_RIGHT_LEFT,
          communication_format = [I2S_COMM_FORMAT_I2S, I2S_COMM_FORMAT_I2S_MSB],
          intr_alloc_flags = ESP_INTR_FLAG_LEVEL1, dma_buf_count = 2, dma_buf_len = 64,
          use_apll = True, tx_desc_auto_clear = True, fixed_mclk = 18432000\<rparr>,
      Call_i2s_set_pin 0
        \<lparr>bck_io_num = 26, ws_io_num = 27, data_out_num = 14, data_in_num = 13\<rparr>,
      Call_i2s_set_sample_rates 0 48000, Call_i2s_zero_dma_buffer 0,
      Call_PIN_FUNC_SELECT, Call_SET_PERI_REG_BITS, Call_delay 500,
      Call_calloc 128 4 1, Call_calloc 128 4 2]
   \<and> new_calls scenario_machine
        (snd (snd (AudioDriver_setup scenario_platform all_succeed 48000 1 26 27 14 13 5 1
           (scenario_driver, scenario_machine)))) =
     [Call_pinMode 5 OUTPUT, Call_digitalWrite 5 LOW,
      Call_i2s_driver_install 1
        \<lparr>mode = [I2S_MODE_MASTER, I2S_MODE_RX, I2S_MODE_TX], sample_rate = 48000,
          bits_per_sample = I2S_BITS_PER_SAMPLE_24BIT,
          channel_format = I2S_CHANNEL_FMT_RIGHT_LEFT,
          communication_format = [I2S_COMM_FORMAT_I2S, I2S_COMM_FORMAT_I2S_MSB],
          intr_alloc_flags = ESP_INTR_FLAG_LEVEL1, dma_buf_count = 2, dma_buf_len = 64,
          use_apll = True, tx_desc_auto_clear = True, fixed_mclk = 18432000\<rparr>,
      Call_i2s_set_pin 1
        \<lparr>bck_io_num = 26, ws_io_num = 27, data_out_num = 14, data_in_num = 13\<rparr>,
      Call_i2s_set_sample_rates 1 48000, Call_i2s_zero_dma_buffer 1,
      Call_PIN_FUNC_SELECT, Call_SET_PERI_REG_BITS, Call_delay 500,
      Call_calloc 64 4 3, Call_calloc 64 4 4]"
proof -
  have m: "scenario_machine = snd (snd scenario_setup)"
    by (simp add: scenario_machine_def)
  have 1: "new_calls power_on scenario_machine =
     [Call_pinMode 33 OUTPUT, Call_digitalWrite 33 LOW,
      Call_i2s_driver_install 0
        \<lparr>mode = [I2S_MODE_MASTER, I2S_MODE_RX, I2S_MODE_TX], sample_rate = 48000,
          bits_per_sample = I2S_BITS_PER_SAMPLE_24BIT,
          channel_format = I2S_CHANNEL_FMT_RIGHT_LEFT,
          communication_format = [I2S_COMM_FORMAT_I2S, I2S_COMM_FORMAT_I2S_MSB],
          intr_alloc_flags = ESP_INTR_FLAG_LEVEL1, dma_buf_count = 2, dma_buf_len = 64,
          use_apll = True, tx_desc_auto_clear = True, fixed_mclk = 18432000\<rparr>,
      Call_i2s_set_pin 0
        \<lparr>bck_io_num = 26, ws_io_num = 27, data_out_num = 14, data_in_num = 13\<rparr>,
      Call_i2s_set_sample_rates 0 48000, Call_i2s_zero_dma_buffer 0,
      Call_PIN_FUNC_SELECT, Call_SET_PERI_REG_BITS, Call_delay 500,
      Call_calloc 128 4 1, Call_calloc 128 4 2]"
    unfolding m scenario_setup_eq by (simp add: new_calls_def power_on_def)
  have 2: "new_calls scenario_machine
        (snd (snd (AudioDriver_setup scenario_platform all_succeed 48000 1 26 27 14 13 5 1
           (scenario_driver, scenario_machine)))) =
     [Call_pinMode 5 OUTPUT, Call_digitalWrite 5 LOW,
      Call_i2s_driver_install 1
        \<lparr>mode = [I2S_MODE_MASTER, I2S_MODE_RX, I2S_MODE_TX], sample_rate = 48000,
          bits_per_sample = I2S_BITS_PER_SAMPLE_24BIT,
          channel_format = I2S_CHANNEL_FMT_RIGHT_LEFT,
          communication_format = [I2S_COMM_FORMAT_I2S, I2S_COMM_FORMAT_I2S_MSB],
          intr_alloc_flags = ESP_INTR_FLAG_LEVEL1, dma_buf_count = 2, dma_buf_len = 64,
          use_apll = True, tx_desc_auto_clear = True, fixed_mclk = 18432000\<rparr>,
      Call_i2s_set_pin 1
        \<lparr>bck_io_num = 26, ws_io_num = 27, data_out_num = 14, data_in_num = 13\<rparr>,
      Call_i2s_set_sample_rates 1 48000, Call_i2s_zero_dma_buffer 1,
      Call_PIN_FUNC_SELECT, Call_SET_PERI_REG_BITS, Call_delay 500,
      Call_calloc 64 4 3, Call_calloc 64 4 4]"
    unfolding m scenario_driver_def scenario_setup_eq
    by (simp add: setup_eq Let_def new_calls_def scenario_platform_def all_succeed_def
        constrain_def sizeof_int32_t_def)
  from 1 2 show ?thesis by (rule conjI)
qed

text \<open>
  Claim C10. A \<^verbatim>\<open>readBlock\<close> that returns leaves the object as it was (sample rate, channel
  count, port, enable pin, buffer length and both buffer pointers), leaves the statics as
  they were and changes no block of the heap other than the read buffer; in particular
  not the write buffer. A \<^verbatim>\<open>writeBlock\<close> that returns leaves the object, the statics and
  the whole heap as they were. In the Configured state both return.
\<close>

theorem block_transfers_leave_configuration_unchanged:
  "(readBlock rd (this, m) = Some (e, this', m')
      \<longrightarrow> this' = this \<and> i2s_config m' = i2s_config m \<and> pin_config m' = pin_config m
        \<and> (\<forall>p. p \<noteq> i2sReadBuffer this \<longrightarrow> block_at m' p = block_at m p)
        \<and> (i2sWriteBuffer this \<noteq> i2sReadBuffer this
            \<longrightarrow> block_at m' (i2sWriteBuffer this) = block_at m (i2sWriteBuffer this)))
   \<and> (writeBlock pf wr (this, m) = Some (e2, this2, m2)
      \<longrightarrow> this2 = this \<and> heap m2 = heap m \<and> i2s_config m2 = i2s_config m
        \<and> pin_config m2 = pin_config m)
   \<and> (configured pf this m
      \<longrightarrow> (\<exists>m'. readBlock rd (this, m) = Some (i2s_read_ret rd, this, m'))
        \<and> (\<exists>m2. writeBlock pf wr (this, m) = Some (i2s_write_ret wr, this, m2)))"
proof (intro conjI impI)
  assume r: "readBlock rd (this, m) = Some (e, this', m')"
  note f = readBlock_frame [OF r]
  show "this' = this" "i2s_config m' = i2s_config m" "pin_config m' = pin_config m"
    "\<forall>p. p \<noteq> i2sReadBuffer this \<longrightarrow> block_at m' p = block_at m p"
    by (rule f)+
  assume "i2sWriteBuffer this \<noteq> i2sReadBuffer this"
  with f(6) show "block_at m' (i2sWriteBuffer this) = block_at m (i2sWriteBuffer this)"
    by blast
next
  assume w: "writeBlock pf wr (this, m) = Some (e2, this2, m2)"
  note f = writeBlock_frame [OF w]
  show "this2 = this" "heap m2 = heap m" "i2s_config m2 = i2s_config m"
    "pin_config m2 = pin_config m"
    by (rule f)+
next
  assume c: "configured pf this m"
  show "\<exists>m'. readBlock rd (this, m) = Some (i2s_read_ret rd, this, m')"
    using readBlock_configured [OF c, of rd] by blast
  show "\<exists>m2. writeBlock pf wr (this, m) = Some (i2s_write_ret wr, this, m2)"
    using writeBlock_configured [OF c, of wr] by blast
qed

text \<open>Claim C10 in the scenario, with a full read of 512 bytes and a full write.\<close>

theorem block_transfers_leave_configuration_unchanged_witness:
  "\<exists>m' m2.
     configured scenario_platform scenario_driver scenario_machine
     \<and> readBlock \<lparr>i2s_read_ret = 0, i2s_read_data = replicate 512 1\<rparr>
       (scenario_driver, scenario_machine) = Some (0, scenario_driver, m')
     \<and> i2sWriteBuffer scenario_driver \<noteq> i2sReadBuffer scenario_driver
     \<and> i2s_config m' = i2s_config scenario_machine \<and> pin_config m' = pin_config scenario_machine
     \<and> (\<forall>p. p \<noteq> i2sReadBuffer scenario_driver \<longrightarrow> block_at m' p = block_at scenario_machine p)
     \<and> block_at m' (i2sWriteBuffer scenario_driver)
         = block_at scenario_machine (i2sWriteBuffer scenario_driver)
     \<and> block_at m' (i2sReadBuffer scenario_driver) = Some (replicate 512 1)
     \<and> writeBlock scenario_platform \<lparr>i2s_write_ret = 0, i2s_write_bytes = 512\<rparr>
         (scenario_driver, scenario_machine) = Some (0, scenario_driver, m2)
     \<and> heap m2 = heap scenario_machine \<and> i2s_config m2 = i2s_config scenario_machine
     \<and> pin_config m2 = pin_config scenario_machine"
proof -
  define rd where "rd = \<lparr>i2s_read_ret = 0, i2s_read_data = replicate 512 (1 :: byte)\<rparr>"
  define wr where "wr = \<lparr>i2s_write_ret = 0, i2s_write_bytes = (512 :: 32 word)\<rparr>"
  obtain m' where r: "readBlock rd (scenario_driver, scenario_machine) = Some (0, scenario_driver, m')"
    using readBlock_configured [OF scenario_configured, of rd] by (auto simp: rd_def)
  obtain m2 where w: "writeBlock scenario_platform wr (scenario_driver, scenario_machine)
      = Some (0, scenario_driver, m2)"
    using writeBlock_configured [OF scenario_configured, of wr] by (auto simp: wr_def)
  have ne: "i2sWriteBuffer scenario_driver \<noteq> i2sReadBuffer scenario_driver"
    by (simp add: scenario_driver_eq)
  have rb: "block_at m' (i2sReadBuffer scenario_driver) = Some (replicate 512 1)"
    using r by (auto simp: readBlock_def Let_def rd_def scenario_driver_eq store_def block_at_def
        invoke_def scenario_heap sizeof_int32_t_def split: if_splits)
  from block_transfers_leave_configuration_unchanged [of rd scenario_driver scenario_machine 0
      scenario_driver m' scenario_platform wr 0 scenario_driver m2] r w ne rb scenario_configured
  show ?thesis
    unfolding rd_def wr_def by blast
qed

end
